theory Spec2Isabelle
  imports Main "HOL-Library.Word" "HOL-Library.AList"
begin

unbundle bit_operations_syntax

section \<open>Guest image loading: libsel4vmmplatsupport, arch/arm/guest\_image.c\<close>

text \<open>
  The file sniffs the format of a guest boot artifact from its first 64 bytes, picks the
  guest-physical load address by format, and streams the artifact into guest RAM page by
  page. The embedding below follows the C text function by function. Addresses and sizes
  (\<open>uintptr_t\<close>, \<open>size_t\<close>) are words of one length \<open>'a\<close>, so that the development
  covers both the 32-bit and the 64-bit ARM configuration; header fields are the fixed-width
  words the structs declare; bytes are \<open>8 word\<close>.
\<close>

type_synonym byte = "8 word"

subsection \<open>Reading the header structs\<close>

text \<open>
  The sniffers cast the header buffer to a struct and read one field. The target is
  little-endian, so a \<open>uint32_t\<close> field at byte offset \<open>off\<close> has the value below, and
  a \<open>uint32_t\<close> object is laid out in memory as \<open>le32_bytes\<close> gives it.
\<close>

definition le16 :: "byte list \<Rightarrow> nat \<Rightarrow> 16 word" where
  "le16 buf off = of_nat (unat (buf ! off) + 256 * unat (buf ! (off + 1)))"

definition le32 :: "byte list \<Rightarrow> nat \<Rightarrow> 32 word" where
  "le32 buf off = of_nat (unat (buf ! off) + 256 * (unat (buf ! (off + 1))
       + 256 * (unat (buf ! (off + 2)) + 256 * unat (buf ! (off + 3)))))"

definition le32_bytes :: "32 word \<Rightarrow> byte list" where
  "le32_bytes w = [ucast w, ucast (drop_bit 8 w), ucast (drop_bit 16 w), ucast (drop_bit 24 w)]"

text \<open>
  \<open>memcmp(l, r, n)\<close>: zero when the first \<open>n\<close> bytes agree, otherwise the difference
  of the first pair of bytes that differ.
\<close>

fun memcmp :: "byte list \<Rightarrow> byte list \<Rightarrow> nat \<Rightarrow> int" where
  "memcmp l r 0 = 0"
| "memcmp l r (Suc n) =
     (if memcmp l r n \<noteq> 0 then memcmp l r n else uint (l ! n) - uint (r ! n))"

subsection \<open>Format sniffer\<close>

text \<open>
  \<open>enum img_type\<close> is declared in guest\_image.h; these are the six values the source
  file uses.
\<close>

datatype img_type = IMG_BIN | IMG_ELF | IMG_UIMAGE | IMG_ZIMAGE | IMG_INITRD_GZ | IMG_DTB

definition UIMAGE_MAGIC :: "32 word" where "UIMAGE_MAGIC = 0x56190527"
definition ZIMAGE_MAGIC :: "32 word" where "ZIMAGE_MAGIC = 0x016F2818"
definition DTB_MAGIC :: "32 word" where "DTB_MAGIC = 0xedfe0dd0"
definition INITRD_GZ_MAGIC :: "16 word" where "INITRD_GZ_MAGIC = 0x8b1f"

text \<open>
  \<open>struct zimage_hdr { uint32_t code[9]; uint32_t magic; uint32_t start; uint32_t end; }\<close>:
  \<open>magic\<close> lies at byte 36 and \<open>start\<close> at byte 40. \<open>struct dtb_hdr\<close> and
  \<open>struct initrd_gz_hdr\<close> have their \<open>magic\<close> at byte 0, 32 and 16 bits wide.
\<close>

definition zimage_hdr_magic :: "byte list \<Rightarrow> 32 word" where
  "zimage_hdr_magic file = le32 file 36"

definition zimage_hdr_start :: "byte list \<Rightarrow> 32 word" where
  "zimage_hdr_start file = le32 file 40"

definition dtb_hdr_magic :: "byte list \<Rightarrow> 32 word" where
  "dtb_hdr_magic file = le32 file 0"

definition initrd_gz_hdr_magic :: "byte list \<Rightarrow> 16 word" where
  "initrd_gz_hdr_magic file = le16 file 0"

text \<open>
  Modelled from the spec: \<open>elf_check_magic\<close> belongs to libelf, outside this file. The
  spec has it test the standard 4-byte ELF magic (\<open>0x7f 'E' 'L' 'F'\<close>) at offset 0; it
  returns 0 on a match and -1 otherwise.
\<close>

definition ELFMAG :: "byte list" where
  "ELFMAG = [0x7f, 0x45, 0x4c, 0x46]"

definition elf_check_magic :: "byte list \<Rightarrow> int" where
  "elf_check_magic file = (if memcmp file ELFMAG 4 \<noteq> 0 then - 1 else 0)"

definition is_uImage :: "byte list \<Rightarrow> int" where
  "is_uImage file = memcmp file (le32_bytes UIMAGE_MAGIC) 4"

definition is_zImage :: "byte list \<Rightarrow> int" where
  "is_zImage file = (if zimage_hdr_magic file \<noteq> ZIMAGE_MAGIC then 1 else 0)"

definition is_dtb :: "byte list \<Rightarrow> int" where
  "is_dtb file = (if dtb_hdr_magic file \<noteq> DTB_MAGIC then 1 else 0)"

definition is_initrd :: "byte list \<Rightarrow> int" where
  "is_initrd file = (if initrd_gz_hdr_magic file \<noteq> INITRD_GZ_MAGIC then 1 else 0)"

definition image_get_type :: "byte list \<Rightarrow> img_type" where
  "image_get_type file =
     (if elf_check_magic file = 0 then IMG_ELF
      else if is_zImage file = 0 then IMG_ZIMAGE
      else if is_uImage file = 0 then IMG_UIMAGE
      else if is_dtb file = 0 then IMG_DTB
      else if is_initrd file = 0 then IMG_INITRD_GZ
      else IMG_BIN)"

text \<open>
  The classification as the specification words it: an ordered table of signatures, the
  first one that matches decides, and \<open>RawBinary\<close> when none does.
\<close>

definition signature_table :: "((byte list \<Rightarrow> bool) \<times> img_type) list" where
  "signature_table =
     [(\<lambda>h. h ! 0 = 0x7f \<and> h ! 1 = 0x45 \<and> h ! 2 = 0x4c \<and> h ! 3 = 0x46, IMG_ELF),
      (\<lambda>h. le32 h 36 = 0x016F2818, IMG_ZIMAGE),
      (\<lambda>h. le32 h 0 = 0x56190527, IMG_UIMAGE),
      (\<lambda>h. le32 h 0 = 0xEDFE0DD0, IMG_DTB),
      (\<lambda>h. le16 h 0 = 0x8B1F, IMG_INITRD_GZ)]"

definition classify_spec :: "byte list \<Rightarrow> img_type" where
  "classify_spec h =
     (case find (\<lambda>(matches, fmt). matches h) signature_table of
        Some (matches, fmt) \<Rightarrow> fmt
      | None \<Rightarrow> IMG_BIN)"

subsection \<open>Load-address resolver for zImage\<close>

text \<open>
  \<open>(hdr->start != 0) ? hdr->start : (ram_base + 0x8000)\<close>: the 32-bit field is
  converted to \<open>uintptr_t\<close>; the sum wraps at the word size.
\<close>

definition zImage_get_load_address :: "byte list \<Rightarrow> 'a::len word \<Rightarrow> 'a word" where
  "zImage_get_load_address file ram_base =
     (if zimage_hdr_start file \<noteq> 0 then ucast (zimage_hdr_start file)
      else ram_base + 0x8000)"

subsection \<open>The world outside the file\<close>

text \<open>
  The source reports every failure by \<open>ZF_LOGE\<close> (or \<open>ZF_LOGF\<close>) and a return
  value of \<open>-1\<close> or \<open>0\<close>. One constructor stands for each kind of logged message, named
  after the error taxonomy of the specification:
  \<^item> \<open>ArtifactNotFound\<close>: "Unable to open image" / "Unable to find image";
  \<^item> \<open>ArtifactUnreadable\<close>: "Could not read len. File is likely corrupt";
  \<^item> \<open>EmptyArtifact\<close>: "has zero size";
  \<^item> \<open>UnsupportedFormat\<close>: "Unknown kernel image format" / "Unknown module image format";
  \<^item> \<open>DeferredMappingFailed\<close>: "Failed to map deferred frames for image";
  \<^item> \<open>TruncatedRead\<close>: "Bytes read from the file server don't match expected length";
  \<^item> \<open>CacheMaintenanceTargetMissing\<close>: "Failed to get vmm cap for vaddr";
  \<^item> \<open>CacheMaintenanceFailed\<close>: "seL4\_ARM\_Page\_CleanInvalidate\_Data failed" (fatal);
  \<^item> \<open>LoadFailed\<close>: "Failed to load", logged by \<open>load_image\<close> after any failure of
    the page-wise write;
  \<^item> \<open>InvalidArgument\<close>: "Invalid guest\_image\_t object".
\<close>

datatype error =
    ArtifactNotFound | ArtifactUnreadable | EmptyArtifact | UnsupportedFormat
  | DeferredMappingFailed | TruncatedRead | CacheMaintenanceTargetMissing
  | CacheMaintenanceFailed | LoadFailed | InvalidArgument

datatype whence = SEEK_SET | SEEK_END

text \<open>
  Every call that leaves the file, and every log message, is recorded in order:
  \<open>Read fd requested returned\<close>, \<open>Touch paddr vaddr size offset\<close> for one invocation
  of the page-write callback, \<open>MarkAllocated start bytes\<close>, \<open>MapDeferred start bytes\<close>.
\<close>

datatype 'w event =
    Open string int
  | Read int nat int
  | Lseek int whence
  | Close int
  | MarkAllocated 'w 'w
  | MapDeferred 'w 'w
  | Touch 'w 'w 'w 'w
  | GetCap 'w
  | CleanInvalidate 'w
  | Log error

text \<open>
  The file server: named files, the table of open descriptors (contents and position, most
  recently opened first), and a fault schedule: \<open>short_read k = Some n\<close> makes the
  \<open>k\<close>-th call of \<open>read\<close> deliver at most \<open>n\<close> bytes. \<open>delivered\<close> is what
  a \<open>read\<close> of \<open>n\<close> bytes at position \<open>pos\<close> hands over: the bytes left in the
  file, cut to \<open>n\<close> and to the fault schedule. \<open>guest_ram\<close> is the content of
  guest-physical memory, the only memory the file writes to.
\<close>

record 'w world =
  files :: "string \<Rightarrow> byte list option"
  open_fds :: "(int \<times> byte list \<times> nat) list"
  short_read :: "nat \<Rightarrow> nat option"
  nreads :: nat
  guest_ram :: "'w \<Rightarrow> byte"
  trace :: "'w event list"

definition emit :: "'w event \<Rightarrow> 'w world \<Rightarrow> 'w world" where
  "emit e w = w\<lparr>trace := trace w @ [e]\<rparr>"

definition ZF_LOGE :: "error \<Rightarrow> 'w world \<Rightarrow> 'w world" where
  "ZF_LOGE msg w = emit (Log msg) w"

text \<open>The events a computation from \<open>w\<close> to \<open>w'\<close> has added.\<close>

definition emitted :: "'w world \<Rightarrow> 'w world \<Rightarrow> 'w event list" where
  "emitted w w' = drop (length (trace w)) (trace w')"

text \<open>A read is exact when it returned as many bytes as were requested.\<close>

definition exact_read :: "'w event \<Rightarrow> bool" where
  "exact_read e = (case e of Read fd requested returned \<Rightarrow> returned = int requested | _ \<Rightarrow> True)"

definition exact_reads :: "'w event list \<Rightarrow> bool" where
  "exact_reads evs = list_all exact_read evs"

text \<open>
  \<open>open\<close> hands out the lowest descriptor number that is not in use; 0, 1 and 2 are the
  standard streams. \<open>lowest_free k n used\<close> searches upwards from \<open>n\<close> for at most
  \<open>k\<close> steps; with \<open>k\<close> the number of open descriptors the search ends on a number
  that is not in use. A descriptor that has been closed is handed out again.
\<close>

fun lowest_free :: "nat \<Rightarrow> nat \<Rightarrow> int list \<Rightarrow> nat" where
  "lowest_free 0 n used = n"
| "lowest_free (Suc k) n used =
     (if int n \<in> set used then lowest_free k (Suc n) used else n)"

definition next_fd :: "'w world \<Rightarrow> nat" where
  "next_fd w = lowest_free (length (open_fds w)) 3 (map fst (open_fds w))"

definition sys_open :: "string \<Rightarrow> 'w world \<Rightarrow> int \<times> 'w world" where
  "sys_open name w =
     (case files w name of
        None \<Rightarrow> (- 1, emit (Open name (- 1)) w)
      | Some content \<Rightarrow>
          (int (next_fd w),
           emit (Open name (int (next_fd w)))
             (w\<lparr>open_fds := (int (next_fd w), content, 0) # open_fds w\<rparr>)))"

definition sys_lseek :: "int \<Rightarrow> nat \<Rightarrow> whence \<Rightarrow> 'w world \<Rightarrow> int \<times> 'w world" where
  "sys_lseek fd off wh w =
     (case map_of (open_fds w) fd of
        None \<Rightarrow> (- 1, emit (Lseek fd wh) w)
      | Some (content, pos) \<Rightarrow>
          (let pos' = (case wh of SEEK_SET \<Rightarrow> off | SEEK_END \<Rightarrow> length content + off)
           in (int pos',
               emit (Lseek fd wh)
                 (w\<lparr>open_fds := AList.update fd (content, pos') (open_fds w)\<rparr>))))"

definition delivered :: "'w world \<Rightarrow> byte list \<Rightarrow> nat \<Rightarrow> nat \<Rightarrow> byte list" where
  "delivered w content pos n =
     (case short_read w (nreads w) of
        None \<Rightarrow> take n (drop pos content)
      | Some k \<Rightarrow> take k (take n (drop pos content)))"

definition sys_read :: "int \<Rightarrow> nat \<Rightarrow> 'w world \<Rightarrow> (int \<times> byte list) \<times> 'w world" where
  "sys_read fd n w =
     (case map_of (open_fds w) fd of
        None \<Rightarrow> ((- 1, []), emit (Read fd n (- 1)) (w\<lparr>nreads := Suc (nreads w)\<rparr>))
      | Some (content, pos) \<Rightarrow>
          (let data = delivered w content pos n
           in ((int (length data), data),
               emit (Read fd n (int (length data)))
                 (w\<lparr>open_fds := AList.update fd (content, pos + length data) (open_fds w),
                    nreads := Suc (nreads w)\<rparr>))))"

definition sys_close :: "int \<Rightarrow> 'w world \<Rightarrow> 'w world" where
  "sys_close fd w = emit (Close fd) (w\<lparr>open_fds := AList.delete fd (open_fds w)\<rparr>)"

subsection \<open>The virtual machine and its memory manager\<close>

text \<open>
  Of \<open>vm_t\<close> the file reads \<open>vm->entry\<close> and \<open>vm->mem.clean_cache\<close>. The remaining
  fields stand for what lies outside the file and is taken as given: the build option
  \<open>CONFIG_LIB_SEL4VM_DEFER_MEMORY_MAP\<close>, the values returned by
  \<open>vm_ram_mark_allocated\<close>, \<open>maybe_map_deferred_pages_at\<close>, \<open>vspace_get_cap\<close>
  (\<open>0\<close> is \<open>seL4_CapNull\<close>) and \<open>seL4_ARM_Page_CleanInvalidate_Data\<close>, and the
  address in the monitor's own address space at which a guest page is handed to the callback.
\<close>

record 'w vm =
  entry :: 'w
  clean_cache :: bool
  defer_memory_map :: bool
  mark_allocated_ret :: "'w \<Rightarrow> 'w \<Rightarrow> int"
  map_deferred_ret :: "'w \<Rightarrow> 'w \<Rightarrow> int"
  touch_vaddr :: "'w \<Rightarrow> 'w"
  get_cap_ret :: "'w \<Rightarrow> 'w"
  clean_invalidate_ret :: "'w \<Rightarrow> int"

definition vm_ram_mark_allocated ::
  "'w vm \<Rightarrow> 'w \<Rightarrow> 'w \<Rightarrow> 'w world \<Rightarrow> int \<times> 'w world" where
  "vm_ram_mark_allocated vm start bytes w =
     (mark_allocated_ret vm start bytes, emit (MarkAllocated start bytes) w)"

definition maybe_map_deferred_pages_at ::
  "'w vm \<Rightarrow> 'w \<Rightarrow> 'w \<Rightarrow> 'w world \<Rightarrow> int \<times> 'w world" where
  "maybe_map_deferred_pages_at vm start bytes w =
     (map_deferred_ret vm start bytes, emit (MapDeferred start bytes) w)"

definition vspace_get_cap :: "'w vm \<Rightarrow> 'w \<Rightarrow> 'w world \<Rightarrow> 'w \<times> 'w world" where
  "vspace_get_cap vm vaddr w = (get_cap_ret vm vaddr, emit (GetCap vaddr) w)"

definition seL4_ARM_Page_CleanInvalidate_Data ::
  "'w vm \<Rightarrow> 'w \<Rightarrow> 'w world \<Rightarrow> int \<times> 'w world" where
  "seL4_ARM_Page_CleanInvalidate_Data vm cap w =
     (clean_invalidate_ret vm cap, emit (CleanInvalidate cap) w)"

text \<open>
  Cache maintenance cannot fail when the VM does not ask for it, or when every page has a
  capability and the clean-and-invalidate operation succeeds on it.
\<close>

definition cache_maintenance_ok :: "'w::zero vm \<Rightarrow> bool" where
  "cache_maintenance_ok vm \<longleftrightarrow>
     (clean_cache vm \<longrightarrow>
        (\<forall>vaddr. get_cap_ret vm vaddr \<noteq> 0) \<and> (\<forall>cap. clean_invalidate_ret vm cap = 0))"

text \<open>
  The same seen from the record of one run: cache maintenance went through for a page when
  the capability lookup issued for it returned a capability and the clean-and-invalidate
  issued on that capability succeeded. Only the pages a run has written appear in it.
\<close>

definition maintained :: "'w::zero vm \<Rightarrow> 'w event \<Rightarrow> bool" where
  "maintained vm e =
     (case e of
        GetCap vaddr \<Rightarrow> get_cap_ret vm vaddr \<noteq> 0
      | CleanInvalidate cap \<Rightarrow> clean_invalidate_ret vm cap = 0
      | _ \<Rightarrow> True)"

definition maintained_all :: "'w::zero vm \<Rightarrow> 'w event list \<Rightarrow> bool" where
  "maintained_all vm evs = list_all (maintained vm) evs"

text \<open>
  Modelled from the spec: \<open>ROUND_UP\<close> is a macro of libutils; the spec writes
  \<open>round_up(length, page_size)\<close>, the least multiple of the page size that is not below
  the length (computed in \<open>size_t\<close>, so it wraps for lengths within a page of the top).
\<close>

definition ROUND_UP :: "'a::len word \<Rightarrow> 'a word \<Rightarrow> 'a word" where
  "ROUND_UP n b = n + (if n mod b = 0 then 0 else b - n mod b)"

definition PAGE_SIZE_4K :: nat where
  "PAGE_SIZE_4K = 4096"

subsection \<open>Streaming loader\<close>

text \<open>
  Modelled from the spec: \<open>ZF_LOGF_IFERR\<close> is the fatal log macro of sel4utils, outside
  this file; the spec treats a failed cache-maintenance operation as unrecoverable, so the
  program stops there. A function that may stop the program returns \<open>None\<close> when it
  does; \<open>Some r\<close> is a return to the caller with value \<open>r\<close>.

  \<open>guest_write_address\<close> receives the descriptor through its cookie.
\<close>

text \<open>
  \<open>read(fd, vaddr, size)\<close> puts the bytes it delivers into the destination buffer, which
  is the guest page at \<open>paddr\<close>, whether or not the count is the one asked for.
\<close>

definition store_bytes :: "'a::len word \<Rightarrow> byte list \<Rightarrow> ('a word \<Rightarrow> byte) \<Rightarrow> 'a word \<Rightarrow> byte" where
  "store_bytes paddr data mem =
     (\<lambda>a. if unat (a - paddr) < length data then data ! unat (a - paddr) else mem a)"

definition guest_write_address ::
  "'a::len word vm \<Rightarrow> 'a word \<Rightarrow> 'a word \<Rightarrow> 'a word \<Rightarrow> 'a word \<Rightarrow> int \<Rightarrow> 'a word world
     \<Rightarrow> int option \<times> 'a word world" where
  "guest_write_address vm paddr vaddr sz offset cookie w =
     (let fd = cookie;
          ((n, data), w0) = sys_read fd (unat sz) w;
          w1 = w0\<lparr>guest_ram := store_bytes paddr data (guest_ram w0)\<rparr>;
          len = (word_of_int n :: 'a word)
      in if len \<noteq> sz then (Some (- 1), ZF_LOGE TruncatedRead w1)
         else if clean_cache vm then
           (let (cap, w2) = vspace_get_cap vm vaddr w1
            in if cap = 0 then (Some (- 1), ZF_LOGE CacheMaintenanceTargetMissing w2)
               else
                 (let (error, w3) = seL4_ARM_Page_CleanInvalidate_Data vm cap w2
                  in if error \<noteq> 0 then (None, ZF_LOGE CacheMaintenanceFailed w3)
                     else (Some 0, w3)))
         else (Some 0, w1))"

text \<open>
  Modelled from the spec: \<open>vm_ram_touch\<close> is the memory manager's page-write primitive
  (libsel4vm, outside this file). The spec has it invoke the callback once per page-aligned
  chunk of the range, in ascending order, with the chunk's destination buffer, size and
  offset within the artifact, and fail as soon as a callback fails. \<open>page_chunks\<close> cuts
  the range \<open>[cur, end)\<close> at the 4 KiB boundaries.
\<close>

function page_chunks :: "nat \<Rightarrow> nat \<Rightarrow> (nat \<times> nat) list" where
  "page_chunks cur end_addr =
     (if cur < end_addr
      then (let next_addr = min end_addr ((cur div PAGE_SIZE_4K + 1) * PAGE_SIZE_4K)
            in (cur, next_addr - cur) # page_chunks next_addr end_addr)
      else [])"
  by pat_completeness auto
termination
proof (relation "measure (\<lambda>(cur, end_addr). end_addr - cur)")
  show "wf (measure (\<lambda>(cur, end_addr). end_addr - cur))" by simp
next
  fix cur end_addr next_addr :: nat
  assume lt: "cur < end_addr"
    and nx: "next_addr = min end_addr ((cur div PAGE_SIZE_4K + 1) * PAGE_SIZE_4K)"
  have "cur < (cur div 4096 + 1) * 4096"
    using div_mult_mod_eq [of cur 4096] mod_less_divisor [of 4096 cur] by simp
  with lt nx have "cur < next_addr" by (simp add: PAGE_SIZE_4K_def)
  with lt nx show "((next_addr, end_addr), (cur, end_addr))
      \<in> measure (\<lambda>(cur, end_addr). end_addr - cur)"
    by simp
qed

declare page_chunks.simps [simp del]

fun touch_pages ::
  "'a::len word vm \<Rightarrow> 'a word
     \<Rightarrow> ('a word vm \<Rightarrow> 'a word \<Rightarrow> 'a word \<Rightarrow> 'a word \<Rightarrow> 'a word \<Rightarrow> int \<Rightarrow> 'a word world
           \<Rightarrow> int option \<times> 'a word world)
     \<Rightarrow> int \<Rightarrow> (nat \<times> nat) list \<Rightarrow> 'a word world \<Rightarrow> int option \<times> 'a word world" where
  "touch_pages vm addr touch_callback cookie [] w = (Some 0, w)"
| "touch_pages vm addr touch_callback cookie ((cur, n) # chunks) w =
     (let paddr = (of_nat cur :: 'a word);
          vaddr = touch_vaddr vm paddr;
          sz = (of_nat n :: 'a word);
          offset = paddr - addr;
          w1 = emit (Touch paddr vaddr sz offset) w
      in case touch_callback vm paddr vaddr sz offset cookie w1 of
           (None, w2) \<Rightarrow> (None, w2)
         | (Some result, w2) \<Rightarrow>
             if result \<noteq> 0 then (Some result, w2)
             else touch_pages vm addr touch_callback cookie chunks w2)"

definition vm_ram_touch ::
  "'a::len word vm \<Rightarrow> 'a word \<Rightarrow> 'a word
     \<Rightarrow> ('a word vm \<Rightarrow> 'a word \<Rightarrow> 'a word \<Rightarrow> 'a word \<Rightarrow> 'a word \<Rightarrow> int \<Rightarrow> 'a word world
           \<Rightarrow> int option \<times> 'a word world)
     \<Rightarrow> int \<Rightarrow> 'a word world \<Rightarrow> int option \<times> 'a word world" where
  "vm_ram_touch vm addr sz touch_callback cookie w =
     touch_pages vm addr touch_callback cookie
       (page_chunks (unat addr) (unat addr + unat sz)) w"

text \<open>
  \<open>load_image\<close> returns its \<open>int\<close> together with what it stored through
  \<open>resulting_image_size\<close>: \<open>None\<close> when the pointer was not written.
\<close>

definition load_image ::
  "'a::len word vm \<Rightarrow> string \<Rightarrow> 'a word \<Rightarrow> 'a word world
     \<Rightarrow> (int \<times> 'a word option) option \<times> 'a word world" where
  "load_image vm image_name load_addr w =
     (let (fd, w1) = sys_open image_name w
      in if fd = - 1 then (Some (- 1, None), ZF_LOGE ArtifactNotFound w1)
         else
           (let (end_off, w2) = sys_lseek fd 0 SEEK_END w1;
                file_size = (word_of_int end_off :: 'a word);
                (_, w3) = sys_lseek fd 0 SEEK_SET w2
            in if 0 = file_size then (Some (- 1, None), ZF_LOGE EmptyArtifact w3)
               else
                 (let (_, w4) = vm_ram_mark_allocated vm load_addr
                                  (ROUND_UP file_size (of_nat PAGE_SIZE_4K)) w3;
                      (error, w5) =
                         (if defer_memory_map vm
                          then maybe_map_deferred_pages_at vm load_addr file_size w4
                          else (0, w4))
                  in if defer_memory_map vm \<and> error \<noteq> 0
                     then (Some (- 1, None), ZF_LOGE DeferredMappingFailed w5)
                     else
                       (case vm_ram_touch vm load_addr file_size guest_write_address fd w5 of
                          (None, w6) \<Rightarrow> (None, w6)
                        | (Some error, w6) \<Rightarrow>
                            if error \<noteq> 0
                            then (Some (- 1, None), sys_close fd (ZF_LOGE LoadFailed w6))
                            else (Some (0, Some file_size), sys_close fd w6)))))"

subsection \<open>Classification of a named artifact\<close>

text \<open>
  \<open>get_guest_image_type\<close> reads \<open>sizeof(Elf64_Ehdr) = 64\<close> bytes into the caller's
  header buffer. The result is the return value, the image type if it was stored, and the
  header buffer as the call leaves it.
\<close>

definition sizeof_Elf64_Ehdr :: nat where
  "sizeof_Elf64_Ehdr = 64"

definition get_guest_image_type ::
  "string \<Rightarrow> byte list \<Rightarrow> 'a::len word world
     \<Rightarrow> (int \<times> img_type option \<times> byte list) \<times> 'a word world" where
  "get_guest_image_type image_name header w =
     (let (fd, w1) = sys_open image_name w
      in if fd = - 1 then ((- 1, None, header), ZF_LOGE ArtifactNotFound w1)
         else
           (let ((n, data), w2) = sys_read fd sizeof_Elf64_Ehdr w1;
                header' = data @ drop (length data) header;
                len = (word_of_int n :: 'a word)
            in if len \<noteq> of_nat sizeof_Elf64_Ehdr
               then ((- 1, None, header'), sys_close fd (ZF_LOGE ArtifactUnreadable w2))
               else ((0, Some (image_get_type header'), header'), sys_close fd w2)))"

subsection \<open>Loader facade\<close>

text \<open>
  The two static loaders return the load address, with \<open>0\<close> for every failure, and the
  image size if \<open>load_image\<close> stored it. \<open>Elf64_Ehdr header = {0}\<close> is the zeroed
  64-byte buffer.
\<close>

definition load_guest_kernel_image ::
  "'a::len word vm \<Rightarrow> string \<Rightarrow> 'a word \<Rightarrow> 'a word world
     \<Rightarrow> ('a word \<times> 'a word option) option \<times> 'a word world" where
  "load_guest_kernel_image vm kernel_image_name load_base_addr w =
     (let ((err, ret_file_type, header), w1) =
            get_guest_image_type kernel_image_name (replicate sizeof_Elf64_Ehdr 0) w
      in if err \<noteq> 0 then (Some (0, None), w1)
         else
           (case (case ret_file_type of
                    Some IMG_BIN \<Rightarrow> Some (entry vm)
                  | Some IMG_ZIMAGE \<Rightarrow> Some (zImage_get_load_address header load_base_addr)
                  | _ \<Rightarrow> None) of
              None \<Rightarrow> (Some (0, None), ZF_LOGE UnsupportedFormat w1)
            | Some load_addr \<Rightarrow>
                (case load_image vm kernel_image_name load_addr w1 of
                   (None, w2) \<Rightarrow> (None, w2)
                 | (Some (err, image_size), w2) \<Rightarrow>
                     if err \<noteq> 0 then (Some (0, image_size), w2)
                     else (Some (load_addr, image_size), w2))))"

definition load_guest_module_image ::
  "'a::len word vm \<Rightarrow> string \<Rightarrow> 'a word \<Rightarrow> 'a word world
     \<Rightarrow> ('a word \<times> 'a word option) option \<times> 'a word world" where
  "load_guest_module_image vm image_name load_base_addr w =
     (let ((err, ret_file_type, header), w1) =
            get_guest_image_type image_name (replicate sizeof_Elf64_Ehdr 0) w
      in if err \<noteq> 0 then (Some (0, None), w1)
         else
           (case (case ret_file_type of
                    Some IMG_DTB \<Rightarrow> Some load_base_addr
                  | Some IMG_INITRD_GZ \<Rightarrow> Some load_base_addr
                  | _ \<Rightarrow> None) of
              None \<Rightarrow> (Some (0, None), ZF_LOGE UnsupportedFormat w1)
            | Some load_addr \<Rightarrow>
                (case load_image vm image_name load_addr w1 of
                   (None, w2) \<Rightarrow> (None, w2)
                 | (Some (err, image_size), w2) \<Rightarrow>
                     if err \<noteq> 0 then (Some (0, image_size), w2)
                     else (Some (load_addr, image_size), w2))))"

text \<open>
  The output descriptors: \<open>guest_image_t\<close> with the two fields the file writes
  (\<open>size\<close> is written \<open>size_bytes\<close> here), and
  \<open>guest_kernel_image_t\<close> that embeds one as \<open>kernel_image\<close>. The pointer argument is
  \<open>None\<close> when it is \<open>NULL\<close>; the result carries the \<open>int\<close> returned and the
  descriptor as the call leaves it. The local \<open>kernel_len\<close> is read only after
  \<open>load_image\<close> has stored it.
\<close>

record 'w guest_image =
  load_paddr :: 'w
  size_bytes :: 'w

record 'w guest_kernel_image =
  kernel_image :: "'w guest_image"

definition vm_load_guest_kernel ::
  "'a::len word vm \<Rightarrow> string \<Rightarrow> 'a word \<Rightarrow> 'a word \<Rightarrow> 'a word guest_kernel_image option
     \<Rightarrow> 'a word world
     \<Rightarrow> (int \<times> 'a word guest_kernel_image option) option \<times> 'a word world" where
  "vm_load_guest_kernel vm kernel_name load_address alignment guest_kernel_image w =
     (case guest_kernel_image of
        None \<Rightarrow> (Some (- 1, None), ZF_LOGE InvalidArgument w)
      | Some img \<Rightarrow>
          (case load_guest_kernel_image vm kernel_name load_address w of
             (None, w1) \<Rightarrow> (None, w1)
           | (Some (load_addr, kernel_len), w1) \<Rightarrow>
               if 0 = load_addr then (Some (- 1, Some img), w1)
               else (Some (0, Some (img\<lparr>kernel_image :=
                        (kernel_image img)\<lparr>load_paddr := load_addr,
                                             size_bytes := the kernel_len\<rparr>\<rparr>)), w1)))"

definition vm_load_guest_module ::
  "'a::len word vm \<Rightarrow> string \<Rightarrow> 'a word \<Rightarrow> 'a word \<Rightarrow> 'a word guest_image option
     \<Rightarrow> 'a word world
     \<Rightarrow> (int \<times> 'a word guest_image option) option \<times> 'a word world" where
  "vm_load_guest_module vm module_name load_address alignment guest_image w =
     (case guest_image of
        None \<Rightarrow> (Some (- 1, None), ZF_LOGE InvalidArgument w)
      | Some img \<Rightarrow>
          (case load_guest_module_image vm module_name load_address w of
             (None, w1) \<Rightarrow> (None, w1)
           | (Some (load_addr, module_len), w1) \<Rightarrow>
               if 0 = load_addr then (Some (- 1, Some img), w1)
               else (Some (0, Some (img\<lparr>load_paddr := load_addr,
                                          size_bytes := the module_len\<rparr>)), w1)))"

subsection \<open>Derived notions and example worlds\<close>

text \<open>
  The world once \<open>load_image\<close> has opened the artifact and measured it with the two
  \<open>lseek\<close> calls: the descriptor is open at position 0.
\<close>

definition measured :: "string \<Rightarrow> byte list \<Rightarrow> 'w world \<Rightarrow> 'w world" where
  "measured name content w =
     w\<lparr>open_fds := (int (next_fd w), content, 0) # open_fds w,
       trace := trace w @ [Open name (int (next_fd w)), Lseek (int (next_fd w)) SEEK_END,
                           Lseek (int (next_fd w)) SEEK_SET]\<rparr>"

text \<open>
  Concrete worlds for running the functions: a file server holding the listed files, no
  descriptor open beyond the three standard ones, no read fault, guest memory all zero;
  and a VM whose memory
  manager never fails, with cache cleaning on and an identity mapping of guest pages.
\<close>

definition initial_world :: "(string \<times> byte list) list \<Rightarrow> 'w world" where
  "initial_world fs =
     \<lparr>files = map_of fs, open_fds = [], short_read = (\<lambda>k. None), nreads = 0,
      guest_ram = (\<lambda>a. 0), trace = []\<rparr>"

definition plain_vm :: "'a::len word \<Rightarrow> 'a word vm" where
  "plain_vm e =
     \<lparr>entry = e, clean_cache = True, defer_memory_map = False,
      mark_allocated_ret = (\<lambda>start bytes. 0), map_deferred_ret = (\<lambda>start bytes. 0),
      touch_vaddr = (\<lambda>paddr. paddr), get_cap_ret = (\<lambda>vaddr. 1),
      clean_invalidate_ret = (\<lambda>cap. 0)\<rparr>"

text \<open>
  Variations: a fault that cuts the \<open>k\<close>-th read to \<open>n\<close> bytes; a VM whose pages have
  no capability in the monitor's address space; a VM in which only the listed addresses
  have one; a VM whose memory manager refuses to mark
  the range allocated; a VM built with deferred mapping whose mapping request fails.
\<close>

definition with_fault :: "nat \<Rightarrow> nat \<Rightarrow> 'w world \<Rightarrow> 'w world" where
  "with_fault k n w = w\<lparr>short_read := (\<lambda>i. if i = k then Some n else None)\<rparr>"

definition capless_vm :: "'a::len word \<Rightarrow> 'a word vm" where
  "capless_vm e = (plain_vm e)\<lparr>get_cap_ret := (\<lambda>vaddr. 0)\<rparr>"

definition page_cap_vm :: "'a::len word \<Rightarrow> 'a word list \<Rightarrow> 'a word vm" where
  "page_cap_vm e pages =
     (plain_vm e)\<lparr>get_cap_ret := (\<lambda>vaddr. if vaddr \<in> set pages then 1 else 0)\<rparr>"

definition failing_alloc_vm :: "'a::len word \<Rightarrow> 'a word vm" where
  "failing_alloc_vm e = (plain_vm e)\<lparr>mark_allocated_ret := (\<lambda>start bytes. - 1)\<rparr>"

definition failing_defer_vm :: "'a::len word \<Rightarrow> 'a word vm" where
  "failing_defer_vm e =
     (plain_vm e)\<lparr>defer_memory_map := True, map_deferred_ret := (\<lambda>start bytes. - 1)\<rparr>"

text \<open>Output descriptors as a caller hands them in, with both fields zero.\<close>

definition blank_image :: "'a::len word guest_image" where
  "blank_image = \<lparr>load_paddr = 0, size_bytes = 0\<rparr>"

definition blank_kernel_image :: "'a::len word guest_kernel_image" where
  "blank_kernel_image = \<lparr>kernel_image = blank_image\<rparr>"

section \<open>Little-endian fields and byte patterns\<close>

lemma digit_eq:
  fixes a b ka kb :: nat
  assumes a: "a < 256" and b: "b < 256" and e: "a + 256 * ka = b + 256 * kb"
  shows "a = b \<and> ka = kb"
proof -
  have "(a + 256 * ka) mod 256 = (b + 256 * kb) mod 256" using e by simp
  then have "a = b" using a b by simp
  with e show ?thesis by simp
qed

lemma unat_byte_lt: "unat (b :: byte) < 256"
  using unsigned_less [of b, where 'a = nat] by simp

lemma bytes4_lt:
  fixes a b c d :: nat
  assumes "a < 256" "b < 256" "c < 256" "d < 256"
  shows "a + 256 * (b + 256 * (c + 256 * d)) < 4294967296"
proof -
  have step: "x + 256 * k < 256 * m" if "x < 256" "k < m" for x k m :: nat
    using that by linarith
  from step [OF assms(3) assms(4)] have "c + 256 * d < 65536" by simp
  from step [OF assms(2) this] have "b + 256 * (c + 256 * d) < 16777216" by simp
  from step [OF assms(1) this] show ?thesis by simp
qed

lemma bytes4_inj:
  fixes a b c d a' b' c' d' :: nat
  assumes "a < 256" "b < 256" "c < 256" "a' < 256" "b' < 256" "c' < 256"
    and e: "a + 256 * (b + 256 * (c + 256 * d)) = a' + 256 * (b' + 256 * (c' + 256 * d'))"
  shows "a = a' \<and> b = b' \<and> c = c' \<and> d = d'"
proof -
  from digit_eq [OF assms(1) assms(4) e]
  have 0: "a = a'" and e1: "b + 256 * (c + 256 * d) = b' + 256 * (c' + 256 * d')" by simp_all
  from digit_eq [OF assms(2) assms(5) e1]
  have 1: "b = b'" and e2: "c + 256 * d = c' + 256 * d'" by simp_all
  from digit_eq [OF assms(3) assms(6) e2] 0 1 show ?thesis by simp
qed

lemma unat_of_nat32: "n < 4294967296 \<Longrightarrow> unat (word_of_nat n :: 32 word) = n"
  by (simp only: unat_of_nat) simp

lemma unat_of_nat16: "n < 65536 \<Longrightarrow> unat (word_of_nat n :: 16 word) = n"
  by (simp only: unat_of_nat) simp

lemma unat_le32:
  "unat (le32 buf off) = unat (buf ! off) + 256 * (unat (buf ! (off + 1))
       + 256 * (unat (buf ! (off + 2)) + 256 * unat (buf ! (off + 3))))"
  unfolding le32_def
  by (rule unat_of_nat32) (rule bytes4_lt [OF unat_byte_lt unat_byte_lt unat_byte_lt unat_byte_lt])

lemma unat_le16:
  "unat (le16 buf off) = unat (buf ! off) + 256 * unat (buf ! (off + 1))"
proof -
  have "unat (buf ! off) + 256 * unat (buf ! (off + 1)) < 65536"
    using unat_byte_lt [of "buf ! off"] unat_byte_lt [of "buf ! (off + 1)"] by linarith
  then show ?thesis unfolding le16_def by (rule unat_of_nat16)
qed

lemma le32_eq_bytes:
  fixes c0 c1 c2 c3 :: byte
  shows "le32 buf off = of_nat (unat c0 + 256 * (unat c1 + 256 * (unat c2 + 256 * unat c3)))
    \<longleftrightarrow> buf ! off = c0 \<and> buf ! (off + 1) = c1 \<and> buf ! (off + 2) = c2 \<and> buf ! (off + 3) = c3"
  (is "?L \<longleftrightarrow> ?R")
proof
  assume ?R then show ?L by (simp add: le32_def)
next
  assume L: ?L
  let ?n = "unat c0 + 256 * (unat c1 + 256 * (unat c2 + 256 * unat c3))"
  have "?n < 4294967296"
    by (rule bytes4_lt [OF unat_byte_lt unat_byte_lt unat_byte_lt unat_byte_lt])
  then have "unat (of_nat ?n :: 32 word) = ?n" by (rule unat_of_nat32)
  with L have "unat (buf ! off) + 256 * (unat (buf ! (off + 1))
       + 256 * (unat (buf ! (off + 2)) + 256 * unat (buf ! (off + 3)))) = ?n"
    by (simp only: unat_le32 [symmetric])
  from bytes4_inj [OF unat_byte_lt unat_byte_lt unat_byte_lt unat_byte_lt unat_byte_lt unat_byte_lt this]
  show ?R by (simp only: word_unat_eq_iff)
qed

lemma le16_eq_bytes:
  fixes c0 c1 :: byte
  shows "le16 buf off = of_nat (unat c0 + 256 * unat c1)
    \<longleftrightarrow> buf ! off = c0 \<and> buf ! (off + 1) = c1"
  (is "?L \<longleftrightarrow> ?R")
proof
  assume ?R then show ?L by (simp add: le16_def)
next
  assume L: ?L
  let ?n = "unat c0 + 256 * unat c1"
  have "?n < 65536" using unat_byte_lt [of c0] unat_byte_lt [of c1] by linarith
  then have "unat (of_nat ?n :: 16 word) = ?n" by (rule unat_of_nat16)
  with L have "unat (buf ! off) + 256 * unat (buf ! (off + 1)) = ?n"
    by (simp only: unat_le16 [symmetric])
  from digit_eq [OF unat_byte_lt unat_byte_lt this]
  show ?R by (simp only: word_unat_eq_iff)
qed

lemma memcmp_eq_0_iff: "memcmp l r n = 0 \<longleftrightarrow> (\<forall>i<n. l ! i = r ! i)"
proof (induction n)
  case 0
  show ?case by simp
next
  case (Suc n)
  have "uint (l ! n) - uint (r ! n) = 0 \<longleftrightarrow> l ! n = r ! n"
    by (simp add: word_uint_eq_iff)
  with Suc show ?case by (auto simp: less_Suc_eq)
qed

lemma all_less_4: "(\<forall>i<4. P i) \<longleftrightarrow> P 0 \<and> P 1 \<and> P 2 \<and> P (3::nat)"
proof
  assume "\<forall>i<4. P i" then show "P 0 \<and> P 1 \<and> P 2 \<and> P 3" by simp
next
  assume a: "P 0 \<and> P 1 \<and> P 2 \<and> P 3"
  show "\<forall>i<4. P i"
  proof (intro allI impI)
    fix i :: nat assume "i < 4"
    then have "i = 0 \<or> i = 1 \<or> i = 2 \<or> i = 3" by linarith
    with a show "P i" by auto
  qed
qed

lemma elf_check_magic_iff:
  "elf_check_magic h = 0 \<longleftrightarrow> h ! 0 = 0x7f \<and> h ! 1 = 0x45 \<and> h ! 2 = 0x4c \<and> h ! 3 = 0x46"
  by (simp add: elf_check_magic_def memcmp_eq_0_iff all_less_4 ELFMAG_def)

lemma le32_bytes_UIMAGE_MAGIC: "le32_bytes UIMAGE_MAGIC = [0x27, 0x05, 0x19, 0x56]"
  by (simp add: le32_bytes_def UIMAGE_MAGIC_def)

lemma is_uImage_bytes:
  "is_uImage h = 0 \<longleftrightarrow> h ! 0 = 0x27 \<and> h ! 1 = 0x05 \<and> h ! 2 = 0x19 \<and> h ! 3 = 0x56"
  by (simp add: is_uImage_def memcmp_eq_0_iff all_less_4 le32_bytes_UIMAGE_MAGIC)

lemma le32_eq_bytes_0:
  fixes c0 c1 c2 c3 :: byte
  shows "le32 buf 0 = of_nat (unat c0 + 256 * (unat c1 + 256 * (unat c2 + 256 * unat c3)))
    \<longleftrightarrow> buf ! 0 = c0 \<and> buf ! 1 = c1 \<and> buf ! 2 = c2 \<and> buf ! 3 = c3"
  using le32_eq_bytes [of buf 0 c0 c1 c2 c3] by (simp only: add_0)

lemma le16_eq_bytes_0:
  fixes c0 c1 :: byte
  shows "le16 buf 0 = of_nat (unat c0 + 256 * unat c1) \<longleftrightarrow> buf ! 0 = c0 \<and> buf ! 1 = c1"
  using le16_eq_bytes [of buf 0 c0 c1] by (simp only: add_0)

lemma is_uImage_iff: "is_uImage h = 0 \<longleftrightarrow> le32 h 0 = 0x56190527"
  using le32_eq_bytes_0 [of h "0x27" "0x05" "0x19" "0x56"]
  by (simp add: is_uImage_bytes)

section \<open>Format sniffer\<close>

text \<open>
  C3. Classification is a function of the header buffer alone, and it is the first-match
  search of the specification: ELF magic at offset 0, then \<open>0x016F2818\<close> at the magic
  field of the zImage header (byte 36), then \<open>0x56190527\<close> at offset 0, then
  \<open>0xEDFE0DD0\<close> as a little-endian 32-bit word at offset 0, then the 16-bit value
  \<open>0x8B1F\<close> at offset 0; the first signature that matches gives the format, and
  \<open>IMG_BIN\<close> is the result when none matches.
\<close>

theorem image_get_type_first_match: "image_get_type h = classify_spec h"
  by (simp add: image_get_type_def classify_spec_def signature_table_def
      elf_check_magic_iff is_uImage_iff is_zImage_def is_dtb_def is_initrd_def
      zimage_hdr_magic_def dtb_hdr_magic_def initrd_gz_hdr_magic_def
      ZIMAGE_MAGIC_def DTB_MAGIC_def INITRD_GZ_MAGIC_def)

section \<open>Load-address resolver\<close>

lemma unat_ucast32:
  fixes x :: "32 word"
  assumes "32 \<le> LENGTH('a::len)"
  shows "unat (ucast x :: 'a word) = unat x"
proof -
  have "unat x < 2 ^ 32" using unsigned_less [of x, where 'a = nat] by simp
  also have "(2::nat) ^ 32 \<le> 2 ^ LENGTH('a)" using assms by (rule power_increasing) simp
  finally have "take_bit LENGTH('a) (unat x) = unat x" by (simp add: take_bit_nat_eq_self)
  then show ?thesis by (simp add: unsigned_ucast_eq)
qed

text \<open>
  C2. For every zImage header and every base address \<open>X\<close>: when the header's
  \<open>start\<close> field is non-zero the load address is that field, converted to the address
  type (the same number whenever addresses have at least 32 bits); when the field is zero
  the load address is \<open>X + 0x8000\<close>.
\<close>

theorem zImage_load_address_rule:
  fixes X :: "'a::len word"
  shows "(zimage_hdr_start hdr \<noteq> 0 \<longrightarrow>
            zImage_get_load_address hdr X = ucast (zimage_hdr_start hdr)) \<and>
         (zimage_hdr_start hdr \<noteq> 0 \<and> 32 \<le> LENGTH('a) \<longrightarrow>
            unat (zImage_get_load_address hdr X) = unat (zimage_hdr_start hdr)) \<and>
         (zimage_hdr_start hdr = 0 \<longrightarrow> zImage_get_load_address hdr X = X + 0x8000)"
  by (simp add: zImage_get_load_address_def unat_ucast32)

theorem zImage_load_address_rule_witness:
  "zimage_hdr_start (replicate 40 0 @ [0x00, 0x10, 0x00, 0x00] @ replicate 20 0) \<noteq> 0 \<and>
   32 \<le> LENGTH(64) \<and>
   zImage_get_load_address (replicate 40 0 @ [0x00, 0x10, 0x00, 0x00] @ replicate 20 0)
       (0x80000000 :: 64 word) = 0x1000 \<and>
   zimage_hdr_start (replicate 64 0) = 0 \<and>
   zImage_get_load_address (replicate 64 0) (0x80000000 :: 64 word) = 0x80008000"
  using zImage_load_address_rule [of "replicate 40 0 @ [0x00, 0x10, 0x00, 0x00] @ replicate 20 0"
          "0x80000000 :: 64 word"]
        zImage_load_address_rule [of "replicate 64 0" "0x80000000 :: 64 word"]
  by (simp add: zimage_hdr_start_def le32_def nth_append)

section \<open>File server and memory manager: what each call does\<close>

lemma next_fd_cong: "open_fds w' = open_fds w \<Longrightarrow> next_fd w' = next_fd w"
  by (simp add: next_fd_def)

lemma next_fd_updates [simp]:
  "next_fd (w\<lparr>trace := t\<rparr>) = next_fd w"
  "next_fd (w\<lparr>files := f\<rparr>) = next_fd w"
  "next_fd (w\<lparr>short_read := sr\<rparr>) = next_fd w"
  "next_fd (w\<lparr>nreads := k\<rparr>) = next_fd w"
  "next_fd (w\<lparr>guest_ram := g\<rparr>) = next_fd w"
  by (simp_all add: next_fd_def)

text \<open>
  The number \<open>open\<close> hands out is not in use, and every number from 3 below it is.
\<close>

lemma lowest_free_bounds: "n \<le> lowest_free k n used \<and> lowest_free k n used \<le> n + k"
proof (induction k arbitrary: n)
  case 0
  show ?case by simp
next
  case (Suc k)
  from Suc.IH [of "Suc n"] show ?case by simp
qed

lemma lowest_free_below:
  "n \<le> m \<Longrightarrow> m < lowest_free k n used \<Longrightarrow> int m \<in> set used"
proof (induction k arbitrary: n)
  case 0
  then show ?case by simp
next
  case (Suc k)
  show ?case
  proof (cases "int n \<in> set used")
    case False
    with Suc.prems show ?thesis by simp
  next
    case True
    show ?thesis
    proof (cases "m = n")
      case True
      with \<open>int n \<in> set used\<close> show ?thesis by simp
    next
      case False
      with Suc.prems(1) have "Suc n \<le> m" by simp
      moreover from Suc.prems(2) True have "m < lowest_free k (Suc n) used" by simp
      ultimately show ?thesis by (rule Suc.IH)
    qed
  qed
qed

lemma lowest_free_early:
  "lowest_free k n used < n + k \<Longrightarrow> int (lowest_free k n used) \<notin> set used"
proof (induction k arbitrary: n)
  case 0
  then show ?case by simp
next
  case (Suc k)
  show ?case
  proof (cases "int n \<in> set used")
    case False
    then show ?thesis by simp
  next
    case True
    with Suc.prems have "lowest_free k (Suc n) used < Suc n + k" by simp
    from Suc.IH [OF this] True show ?thesis by simp
  qed
qed

lemma lowest_free_fresh:
  assumes len: "length used \<le> k"
  shows "int (lowest_free k n used) \<notin> set used"
proof (cases "lowest_free k n used < n + k")
  case True
  then show ?thesis by (rule lowest_free_early)
next
  case False
  with lowest_free_bounds [of n k used] have eq: "lowest_free k n used = n + k" by simp
  show ?thesis
  proof
    assume top: "int (lowest_free k n used) \<in> set used"
    have "int m \<in> set used" if "m \<in> {n..n + k}" for m
    proof (cases "m = n + k")
      case True
      with top eq show ?thesis by simp
    next
      case False
      with that eq have "n \<le> m" and "m < lowest_free k n used" by simp_all
      then show ?thesis by (rule lowest_free_below)
    qed
    then have sub: "int ` {n..n + k} \<subseteq> set used" by blast
    have "card (int ` {n..n + k}) = Suc k" by (simp add: card_image)
    moreover have "card (int ` {n..n + k}) \<le> card (set used)"
      by (rule card_mono [OF _ sub]) simp
    moreover have "card (set used) \<le> length used" by (rule card_length)
    ultimately show False using len by simp
  qed
qed

lemma next_fd_fresh: "int (next_fd w) \<notin> fst ` set (open_fds w)"
  using lowest_free_fresh [of "map fst (open_fds w)" "length (open_fds w)" 3]
  by (simp add: next_fd_def)

lemma next_fd_lowest:
  "3 \<le> next_fd w \<and> (\<forall>m. 3 \<le> m \<and> m < next_fd w \<longrightarrow> int m \<in> fst ` set (open_fds w))"
proof -
  have "3 \<le> next_fd w" using lowest_free_bounds [of 3] by (simp add: next_fd_def)
  moreover have "int m \<in> fst ` set (open_fds w)" if "3 \<le> m" "m < next_fd w" for m
    using lowest_free_below [of 3 m "length (open_fds w)" "map fst (open_fds w)"] that
    by (simp add: next_fd_def)
  ultimately show ?thesis by blast
qed

lemma emit_fields:
  "trace (emit e w) = trace w @ [e]"
  "files (emit e w) = files w"
  "open_fds (emit e w) = open_fds w"
  "next_fd (emit e w) = next_fd w"
  "short_read (emit e w) = short_read w"
  "nreads (emit e w) = nreads w"
  "guest_ram (emit e w) = guest_ram w"
  by (simp_all add: emit_def next_fd_def)

lemma ZF_LOGE_fields:
  "trace (ZF_LOGE m w) = trace w @ [Log m]"
  "files (ZF_LOGE m w) = files w"
  "open_fds (ZF_LOGE m w) = open_fds w"
  "next_fd (ZF_LOGE m w) = next_fd w"
  "short_read (ZF_LOGE m w) = short_read w"
  "nreads (ZF_LOGE m w) = nreads w"
  "guest_ram (ZF_LOGE m w) = guest_ram w"
  by (simp_all add: ZF_LOGE_def emit_fields)

lemma emitted_append: "trace w' = trace w @ evs \<Longrightarrow> emitted w w' = evs"
  by (simp add: emitted_def)

lemma sys_open_Some:
  assumes "files w name = Some content"
  shows "sys_open name w =
     (int (next_fd w),
      w\<lparr>open_fds := (int (next_fd w), content, 0) # open_fds w,
        trace := trace w @ [Open name (int (next_fd w))]\<rparr>)"
  using assms by (simp add: sys_open_def emit_def)

lemma sys_open_None:
  assumes "files w name = None"
  shows "sys_open name w = (- 1, w\<lparr>trace := trace w @ [Open name (- 1)]\<rparr>)"
  using assms by (simp add: sys_open_def emit_def)

lemma sys_lseek_open:
  assumes "map_of (open_fds w) fd = Some (content, pos)"
  shows "sys_lseek fd off wh w =
     (int (case wh of SEEK_SET \<Rightarrow> off | SEEK_END \<Rightarrow> length content + off),
      w\<lparr>open_fds := AList.update fd
           (content, case wh of SEEK_SET \<Rightarrow> off | SEEK_END \<Rightarrow> length content + off) (open_fds w),
        trace := trace w @ [Lseek fd wh]\<rparr>)"
  using assms by (simp add: sys_lseek_def emit_def Let_def)

lemma length_delivered_le: "length (delivered w content pos n) \<le> n"
  by (auto simp: delivered_def split: option.split)

lemma sys_read_open:
  assumes "map_of (open_fds w) fd = Some (content, pos)"
  shows "sys_read fd n w =
     ((int (length (delivered w content pos n)), delivered w content pos n),
      w\<lparr>open_fds := AList.update fd (content, pos + length (delivered w content pos n)) (open_fds w),
        nreads := Suc (nreads w),
        trace := trace w @ [Read fd n (int (length (delivered w content pos n)))]\<rparr>)"
  using assms by (simp add: sys_read_def emit_def Let_def)

lemma sys_close_eq:
  "sys_close fd w = w\<lparr>open_fds := AList.delete fd (open_fds w), trace := trace w @ [Close fd]\<rparr>"
  by (simp add: sys_close_def emit_def)

lemma of_nat_eq_word_iff:
  fixes sz :: "'a::len word"
  assumes "k \<le> unat sz"
  shows "of_nat k = sz \<longleftrightarrow> k = unat sz"
proof
  assume "of_nat k = sz"
  then have "unat (of_nat k :: 'a word) = unat sz" by simp
  with le_unat_uoi [OF assms] show "k = unat sz" by simp
next
  assume "k = unat sz" then show "of_nat k = sz" by simp
qed

lemma exact_reads_simps:
  "exact_reads []"
  "exact_reads (e # evs) \<longleftrightarrow> exact_read e \<and> exact_reads evs"
  "exact_reads (evs @ evs') \<longleftrightarrow> exact_reads evs \<and> exact_reads evs'"
  by (simp_all add: exact_reads_def)

lemma exact_read_simps:
  "exact_read (Read fd req got) \<longleftrightarrow> got = int req"
  "exact_read (Open name fd)"
  "exact_read (Lseek fd wh)"
  "exact_read (Close fd)"
  "exact_read (MarkAllocated a b)"
  "exact_read (MapDeferred a b)"
  "exact_read (Touch p v s off)"
  "exact_read (GetCap v)"
  "exact_read (CleanInvalidate c)"
  "exact_read (Log m)"
  by (simp_all add: exact_read_def)

lemma guest_write_address_open:
  fixes sz :: "'a::len word"
  assumes op: "map_of (open_fds w) fd = Some (content, pos)"
  shows "\<exists>got tail.
      trace (snd (guest_write_address vm paddr vaddr sz offset fd w))
          = trace w @ Read fd (unat sz) (int got) # tail \<and>
      exact_reads tail \<and>
      map_of (open_fds (snd (guest_write_address vm paddr vaddr sz offset fd w))) fd
          = Some (content, pos + got) \<and>
      got \<le> unat sz \<and>
      (got \<noteq> unat sz \<longrightarrow>
         fst (guest_write_address vm paddr vaddr sz offset fd w) = Some (- 1) \<and>
         tail = [Log TruncatedRead]) \<and>
      (fst (guest_write_address vm paddr vaddr sz offset fd w) = Some 0 \<longrightarrow> got = unat sz) \<and>
      (cache_maintenance_ok vm \<and> got = unat sz \<longrightarrow>
         fst (guest_write_address vm paddr vaddr sz offset fd w) = Some 0)"
proof -
  let ?d = "delivered w content pos (unat sz)"
  have le: "length ?d \<le> unat sz" by (rule length_delivered_le)
  note cmp = of_nat_eq_word_iff [OF le]
  show ?thesis
  proof (cases "length ?d = unat sz")
    case False
    then show ?thesis
      using le
      by (intro exI [of _ "length ?d"] exI [of _ "[Log TruncatedRead]"])
         (simp add: guest_write_address_def sys_read_open [OF op] cmp ZF_LOGE_def emit_def
            exact_reads_simps exact_read_simps update_conv')
  next
    case True
    show ?thesis
    proof (cases "clean_cache vm")
      case False
      with True show ?thesis
        by (intro exI [of _ "length ?d"] exI [of _ "[]"])
           (simp add: guest_write_address_def sys_read_open [OF op] cmp cache_maintenance_ok_def
              exact_reads_simps update_conv')
    next
      case cc: True
      show ?thesis
      proof (cases "get_cap_ret vm vaddr = 0")
        case True
        with cc \<open>length ?d = unat sz\<close> show ?thesis
          by (intro exI [of _ "length ?d"]
                exI [of _ "[GetCap vaddr, Log CacheMaintenanceTargetMissing]"])
             (auto simp add: guest_write_address_def sys_read_open [OF op] cmp cache_maintenance_ok_def
                vspace_get_cap_def ZF_LOGE_def emit_def
                exact_reads_simps exact_read_simps update_conv')
      next
        case cap: False
        show ?thesis
        proof (cases "clean_invalidate_ret vm (get_cap_ret vm vaddr) = 0")
          case True
          with cc cap \<open>length ?d = unat sz\<close> show ?thesis
            by (intro exI [of _ "length ?d"]
                  exI [of _ "[GetCap vaddr, CleanInvalidate (get_cap_ret vm vaddr)]"])
               (simp add: guest_write_address_def sys_read_open [OF op] cmp
                  vspace_get_cap_def seL4_ARM_Page_CleanInvalidate_Data_def ZF_LOGE_def emit_def
                  exact_reads_simps exact_read_simps update_conv')
        next
          case False
          with cc cap \<open>length ?d = unat sz\<close> show ?thesis
            by (intro exI [of _ "length ?d"]
                  exI [of _ "[GetCap vaddr, CleanInvalidate (get_cap_ret vm vaddr),
                              Log CacheMaintenanceFailed]"])
               (auto simp add: guest_write_address_def sys_read_open [OF op] cmp cache_maintenance_ok_def
                  vspace_get_cap_def seL4_ARM_Page_CleanInvalidate_Data_def ZF_LOGE_def emit_def
                  exact_reads_simps exact_read_simps update_conv')
        qed
      qed
    qed
  qed
qed

section \<open>The page-wise write\<close>

lemma touch_pages_guest_write_address:
  fixes vm :: "'a::len word vm"
  assumes "map_of (open_fds w) fd = Some (content, pos)"
  shows "\<exists>evs pos'.
      trace (snd (touch_pages vm addr guest_write_address fd cs w)) = trace w @ evs \<and>
      map_of (open_fds (snd (touch_pages vm addr guest_write_address fd cs w))) fd
          = Some (content, pos') \<and>
      (fst (touch_pages vm addr guest_write_address fd cs w) = Some 0 \<longrightarrow> exact_reads evs) \<and>
      (\<not> exact_reads evs \<longrightarrow>
         fst (touch_pages vm addr guest_write_address fd cs w) = Some (- 1) \<and>
         (\<exists>pre req got. evs = pre @ [Read fd req got, Log TruncatedRead] \<and>
             got < int req \<and> exact_reads pre)) \<and>
      (cache_maintenance_ok vm \<and> exact_reads evs \<longrightarrow>
         fst (touch_pages vm addr guest_write_address fd cs w) = Some 0)"
  using assms
proof (induction cs arbitrary: w pos)
  case Nil
  then show ?case
    by (intro exI [of _ "[]"] exI [of _ pos]) (simp add: exact_reads_simps)
next
  case (Cons c cs)
  obtain cur n where c: "c = (cur, n)" by (cases c)
  define paddr :: "'a word" where "paddr = of_nat cur"
  define sz :: "'a word" where "sz = of_nat n"
  define w1 where "w1 = emit (Touch paddr (touch_vaddr vm paddr) sz (paddr - addr)) w"
  define G where "G = guest_write_address vm paddr (touch_vaddr vm paddr) sz (paddr - addr) fd w1"
  have op1: "map_of (open_fds w1) fd = Some (content, pos)"
    using Cons.prems by (simp add: w1_def emit_fields)
  from guest_write_address_open [OF op1, of vm paddr "touch_vaddr vm paddr" sz "paddr - addr"]
  obtain got tail where
    tr: "trace (snd G) = trace w1 @ Read fd (unat sz) (int got) # tail"
    and ex: "exact_reads tail"
    and op2: "map_of (open_fds (snd G)) fd = Some (content, pos + got)"
    and le: "got \<le> unat sz"
    and short: "got \<noteq> unat sz \<longrightarrow> fst G = Some (- 1) \<and> tail = [Log TruncatedRead]"
    and ok0: "fst G = Some 0 \<longrightarrow> got = unat sz"
    and ok1: "cache_maintenance_ok vm \<and> got = unat sz \<longrightarrow> fst G = Some 0"
    unfolding G_def by blast
  let ?T = "Touch paddr (touch_vaddr vm paddr) sz (paddr - addr)"
  have tr': "trace (snd G) = trace w @ ?T # Read fd (unat sz) (int got) # tail"
    using tr by (simp add: w1_def emit_fields)
  have unfold: "touch_pages vm addr guest_write_address fd (c # cs) w =
      (case G of (None, w2) \<Rightarrow> (None, w2)
       | (Some result, w2) \<Rightarrow>
           if result \<noteq> 0 then (Some result, w2)
           else touch_pages vm addr guest_write_address fd cs w2)"
    by (simp add: c G_def w1_def paddr_def sz_def Let_def)
  show ?case
  proof (cases "fst G = Some 0")
    case True
    then have g: "G = (Some 0, snd G)" by (cases G) simp
    have rec: "touch_pages vm addr guest_write_address fd (c # cs) w =
        touch_pages vm addr guest_write_address fd cs (snd G)"
      by (subst unfold, subst g) simp
    from True ok0 have goteq: "got = unat sz" by simp
    from Cons.IH [OF op2]
    obtain evs pos' where
      itr: "trace (snd (touch_pages vm addr guest_write_address fd cs (snd G))) = trace (snd G) @ evs"
      and iop: "map_of (open_fds (snd (touch_pages vm addr guest_write_address fd cs (snd G)))) fd
          = Some (content, pos')"
      and i1: "fst (touch_pages vm addr guest_write_address fd cs (snd G)) = Some 0 \<longrightarrow> exact_reads evs"
      and i2: "\<not> exact_reads evs \<longrightarrow>
         fst (touch_pages vm addr guest_write_address fd cs (snd G)) = Some (- 1) \<and>
         (\<exists>pre req got. evs = pre @ [Read fd req got, Log TruncatedRead] \<and>
             got < int req \<and> exact_reads pre)"
      and i3: "cache_maintenance_ok vm \<and> exact_reads evs \<longrightarrow>
         fst (touch_pages vm addr guest_write_address fd cs (snd G)) = Some 0"
      by blast
    let ?head = "?T # Read fd (unat sz) (int got) # tail"
    have exh: "exact_reads ?head"
      using ex goteq by (simp add: exact_reads_simps exact_read_simps)
    have iff: "exact_reads (?head @ evs) \<longleftrightarrow> exact_reads evs"
      using exh by (simp only: exact_reads_simps(3) simp_thms)
    have sh: "\<not> exact_reads evs \<longrightarrow>
         (\<exists>pre req got. ?head @ evs = pre @ [Read fd req got, Log TruncatedRead] \<and>
             got < int req \<and> exact_reads pre)"
    proof
      assume "\<not> exact_reads evs"
      with i2 obtain pre req g' where
        e: "evs = pre @ [Read fd req g', Log TruncatedRead]" and l: "g' < int req"
        and p: "exact_reads pre" by blast
      have "?head @ evs = (?head @ pre) @ [Read fd req g', Log TruncatedRead]"
        using e by simp
      moreover have "exact_reads (?head @ pre)"
        using exh p by (simp only: exact_reads_simps(3) simp_thms)
      ultimately show "\<exists>pre req got. ?head @ evs = pre @ [Read fd req got, Log TruncatedRead] \<and>
             got < int req \<and> exact_reads pre"
        using l by blast
    qed
    have trf: "trace (snd (touch_pages vm addr guest_write_address fd cs (snd G)))
        = trace w @ (?head @ evs)"
      using itr tr' by simp
    show ?thesis
      unfolding rec
      apply (rule exI [of _ "?head @ evs"], rule exI [of _ pos'])
      apply (simp only: iff)
      using trf iop i1 i2 i3 sh apply blast
      done
  next
    case nz: False
    have res: "touch_pages vm addr guest_write_address fd (c # cs) w = G"
    proof (cases G)
      case (Pair r w2)
      with nz show ?thesis by (subst unfold) (cases r; simp)
    qed
    let ?evs = "?T # Read fd (unat sz) (int got) # tail"
    show ?thesis
    proof (cases "got = unat sz")
      case True
      with ex have exr: "exact_reads ?evs"
        by (simp add: exact_reads_simps exact_read_simps)
      from True ok1 nz have nok: "\<not> cache_maintenance_ok vm" by blast
      show ?thesis
        unfolding res
        apply (rule exI [of _ ?evs], rule exI [of _ "pos + got"])
        using tr' op2 exr nok nz apply blast
        done
    next
      case ne: False
      with short have f: "fst G = Some (- 1)" and t: "tail = [Log TruncatedRead]" by simp_all
      from ne le have "got < unat sz" by simp
      then have lt: "int got < int (unat sz)" by (simp only: of_nat_less_iff)
      have nex: "\<not> exact_reads ?evs"
      proof -
        have "int got \<noteq> int (unat sz)" using ne by (simp only: of_nat_eq_iff not_False_eq_True)
        then show ?thesis by (simp only: exact_reads_simps exact_read_simps simp_thms)
      qed
      have shape: "?evs = [?T] @ [Read fd (unat sz) (int got), Log TruncatedRead]"
        using t by simp
      have pre: "exact_reads [?T]" by (simp add: exact_reads_simps exact_read_simps)
      show ?thesis
        unfolding res
        apply (rule exI [of _ ?evs], rule exI [of _ "pos + got"])
        using tr' op2 nex f shape pre lt nz apply blast
        done
    qed
  qed
qed

section \<open>Streaming loader\<close>

lemma load_image_unfold:
  fixes vm :: "'a::len word vm"
  assumes f: "files w name = Some content"
  shows "load_image vm name addr w =
    (let fd = int (next_fd w);
         w3 = measured name content w;
         file_size = (of_nat (length content) :: 'a word)
     in if file_size = 0 then (Some (- 1, None), ZF_LOGE EmptyArtifact w3)
        else
          (let w4 = emit (MarkAllocated addr (ROUND_UP file_size (of_nat PAGE_SIZE_4K))) w3;
               w5 = (if defer_memory_map vm then emit (MapDeferred addr file_size) w4 else w4)
           in if defer_memory_map vm \<and> map_deferred_ret vm addr file_size \<noteq> 0
              then (Some (- 1, None), ZF_LOGE DeferredMappingFailed w5)
              else
                (case vm_ram_touch vm addr file_size guest_write_address fd w5 of
                   (None, w6) \<Rightarrow> (None, w6)
                 | (Some error, w6) \<Rightarrow>
                     if error \<noteq> 0
                     then (Some (- 1, None), sys_close fd (ZF_LOGE LoadFailed w6))
                     else (Some (0, Some file_size), sys_close fd w6))))"
proof -
  let ?fd = "int (next_fd w)"
  let ?w1 = "w\<lparr>open_fds := (?fd, content, 0) # open_fds w,
        trace := trace w @ [Open name ?fd]\<rparr>"
  have o: "sys_open name w = (?fd, ?w1)" by (rule sys_open_Some [OF f])
  have m1: "map_of (open_fds ?w1) ?fd = Some (content, 0)" by simp
  let ?w2 = "?w1\<lparr>open_fds := AList.update ?fd (content, length content) (open_fds ?w1),
        trace := trace ?w1 @ [Lseek ?fd SEEK_END]\<rparr>"
  have s1: "sys_lseek ?fd 0 SEEK_END ?w1 = (int (length content), ?w2)"
    using sys_lseek_open [OF m1, of 0 SEEK_END] by simp
  have m2: "map_of (open_fds ?w2) ?fd = Some (content, length content)" by simp
  have s2: "sys_lseek ?fd 0 SEEK_SET ?w2 = (0, measured name content w)"
    using sys_lseek_open [OF m2, of 0 SEEK_SET] by (simp add: measured_def)
  have ne: "?fd \<noteq> - 1" by simp
  show ?thesis
    unfolding load_image_def o
    by (simp only: split_conv Let_def ne if_False s1 s2 fst_conv snd_conv of_int_of_nat_eq)
       (simp add: vm_ram_mark_allocated_def maybe_map_deferred_pages_at_def Let_def
          eq_commute [of 0])
qed

lemma trace_measured:
  "trace (measured name content w) = trace w @ [Open name (int (next_fd w)),
      Lseek (int (next_fd w)) SEEK_END, Lseek (int (next_fd w)) SEEK_SET]"
  "open_fds (measured name content w) = (int (next_fd w), content, 0) # open_fds w"
  "files (measured name content w) = files w"
  by (simp_all add: measured_def)

text \<open>
  C5. For every artifact whose total length is zero, \<open>load_image\<close> fails: it returns
  \<open>-1\<close> without storing a size, logs the zero-size error, and the only calls it has made
  are the \<open>open\<close> and the two \<open>lseek\<close>: no allocation request and no write.
\<close>

theorem load_image_empty_artifact:
  fixes vm :: "'a::len word vm"
  assumes "files w name = Some []"
  shows "fst (load_image vm name addr w) = Some (- 1, None) \<and>
         emitted w (snd (load_image vm name addr w)) =
           [Open name (int (next_fd w)), Lseek (int (next_fd w)) SEEK_END,
            Lseek (int (next_fd w)) SEEK_SET, Log EmptyArtifact]"
  by (simp add: load_image_unfold [OF assms] emitted_def ZF_LOGE_fields trace_measured)

theorem load_image_empty_artifact_witness:
  "files (initial_world [(''empty'', [])] :: 64 word world) ''empty'' = Some [] \<and>
   fst (load_image (plain_vm 0x40000000) ''empty'' 0x40000000
          (initial_world [(''empty'', [])] :: 64 word world)) = Some (- 1, None) \<and>
   emitted (initial_world [(''empty'', [])] :: 64 word world)
      (snd (load_image (plain_vm 0x40000000) ''empty'' 0x40000000
          (initial_world [(''empty'', [])]))) =
     [Open ''empty'' 3, Lseek 3 SEEK_END, Lseek 3 SEEK_SET, Log EmptyArtifact]"
  using load_image_empty_artifact [of "initial_world [(''empty'', [])] :: 64 word world"
          "''empty''" "plain_vm 0x40000000" "0x40000000"]
  by (simp add: initial_world_def next_fd_def)

lemma load_image_stream:
  fixes vm :: "'a::len word vm"
  assumes f: "files w name = Some content"
    and nz: "(of_nat (length content) :: 'a word) \<noteq> 0"
    and d: "\<not> (defer_memory_map vm \<and> map_deferred_ret vm addr (of_nat (length content)) \<noteq> 0)"
  defines "fd \<equiv> int (next_fd w)"
  defines "fs \<equiv> (of_nat (length content) :: 'a word)"
  defines "pre \<equiv> [Open name fd, Lseek fd SEEK_END, Lseek fd SEEK_SET,
                    MarkAllocated addr (ROUND_UP fs (of_nat PAGE_SIZE_4K))]
                   @ (if defer_memory_map vm then [MapDeferred addr fs] else [])"
  defines "R \<equiv> load_image vm name addr w"
  shows "\<exists>evs.
     (fst R = Some (0, Some fs) \<and> emitted w (snd R) = pre @ evs @ [Close fd] \<and> exact_reads evs)
   \<or> (fst R = Some (- 1, None) \<and> emitted w (snd R) = pre @ evs @ [Log LoadFailed, Close fd] \<and>
        (exact_reads evs \<longrightarrow> \<not> cache_maintenance_ok vm) \<and>
        (\<not> exact_reads evs \<longrightarrow>
           (\<exists>p req got. evs = p @ [Read fd req got, Log TruncatedRead] \<and>
               got < int req \<and> exact_reads p)))
   \<or> (fst R = None \<and> emitted w (snd R) = pre @ evs \<and> exact_reads evs \<and>
        \<not> cache_maintenance_ok vm)"
proof -
  define w5 where "w5 =
    (if defer_memory_map vm
     then emit (MapDeferred addr fs)
            (emit (MarkAllocated addr (ROUND_UP fs (of_nat PAGE_SIZE_4K))) (measured name content w))
     else emit (MarkAllocated addr (ROUND_UP fs (of_nat PAGE_SIZE_4K))) (measured name content w))"
  define T where "T = vm_ram_touch vm addr fs guest_write_address fd w5"
  have R: "R = (case T of (None, w6) \<Rightarrow> (None, w6)
                 | (Some error, w6) \<Rightarrow>
                     if error \<noteq> 0
                     then (Some (- 1, None), sys_close fd (ZF_LOGE LoadFailed w6))
                     else (Some (0, Some fs), sys_close fd w6))"
    using nz d unfolding R_def load_image_unfold [OF f] T_def w5_def fs_def fd_def
    by (auto simp: Let_def)
  have tr5: "trace w5 = trace w @ pre"
    by (simp add: w5_def pre_def emit_fields trace_measured fd_def)
  have op5: "map_of (open_fds w5) fd = Some (content, 0)"
    by (simp add: w5_def emit_fields trace_measured fd_def)
  from touch_pages_guest_write_address [OF op5, of vm addr
         "page_chunks (unat addr) (unat addr + unat fs)"]
  obtain evs pos' where
    tr: "trace (snd T) = trace w5 @ evs"
    and t1: "fst T = Some 0 \<longrightarrow> exact_reads evs"
    and t2: "\<not> exact_reads evs \<longrightarrow> fst T = Some (- 1) \<and>
         (\<exists>p req got. evs = p @ [Read fd req got, Log TruncatedRead] \<and>
             got < int req \<and> exact_reads p)"
    and t3: "cache_maintenance_ok vm \<and> exact_reads evs \<longrightarrow> fst T = Some 0"
    unfolding T_def vm_ram_touch_def by blast
  have trT: "trace (snd T) = trace w @ pre @ evs" using tr tr5 by simp
  obtain r w6 where T: "T = (r, w6)" by (cases T)
  have tr6: "trace w6 = trace w @ pre @ evs" using trT T by simp
  show ?thesis
  proof (cases r)
    case None
    then have "fst R = None" and "snd R = w6" using R T by simp_all
    moreover have "emitted w w6 = pre @ evs" by (rule emitted_append [OF tr6])
    moreover have "exact_reads evs" using t2 T None by auto
    moreover have "\<not> cache_maintenance_ok vm" using t3 T None \<open>exact_reads evs\<close> by auto
    ultimately show ?thesis by auto
  next
    case (Some e)
    show ?thesis
    proof (cases "e = 0")
      case True
      with Some R T have "fst R = Some (0, Some fs)" and sn: "snd R = sys_close fd w6"
        by simp_all
      moreover have "emitted w (snd R) = pre @ evs @ [Close fd]"
        by (rule emitted_append) (simp add: sn sys_close_eq tr6)
      moreover have "exact_reads evs" using t1 T Some True by simp
      ultimately show ?thesis by auto
    next
      case False
      with Some R T have "fst R = Some (- 1, None)"
        and sn: "snd R = sys_close fd (ZF_LOGE LoadFailed w6)"
        by simp_all
      moreover have "emitted w (snd R) = pre @ evs @ [Log LoadFailed, Close fd]"
        by (rule emitted_append) (simp add: sn sys_close_eq ZF_LOGE_fields tr6)
      moreover have "exact_reads evs \<longrightarrow> \<not> cache_maintenance_ok vm"
        using t3 T Some False by auto
      moreover have "\<not> exact_reads evs \<longrightarrow>
           (\<exists>p req got. evs = p @ [Read fd req got, Log TruncatedRead] \<and>
               got < int req \<and> exact_reads p)"
        using t2 by blast
      ultimately show ?thesis by blast
    qed
  qed
qed

lemmas run_defs =
  load_image_def next_fd_def sys_open_def sys_lseek_def sys_read_def sys_close_def delivered_def
  emit_def ZF_LOGE_def vm_ram_mark_allocated_def maybe_map_deferred_pages_at_def
  vm_ram_touch_def page_chunks.simps PAGE_SIZE_4K_def guest_write_address_def
  vspace_get_cap_def seL4_ARM_Page_CleanInvalidate_Data_def ROUND_UP_def Let_def
  initial_world_def plain_vm_def emitted_def exact_reads_def exact_read_def
  get_guest_image_type_def sizeof_Elf64_Ehdr_def
  with_fault_def capless_vm_def page_cap_vm_def failing_alloc_vm_def failing_defer_vm_def
  maintained_all_def maintained_def
  blank_image_def blank_kernel_image_def
  load_guest_kernel_image_def load_guest_module_image_def
  vm_load_guest_kernel_def vm_load_guest_module_def

lemma of_nat_length_neq_0:
  assumes "content \<noteq> []" "length content < 2 ^ LENGTH('a::len)"
  shows "(of_nat (length content) :: 'a word) \<noteq> 0"
proof
  assume "(of_nat (length content) :: 'a word) = 0"
  then have "unat (of_nat (length content) :: 'a word) = 0" by simp
  then have "length content = 0" using assms(2) by (simp add: unat_of_nat)
  with assms(1) show False by simp
qed

lemma load_image_deferred_failure:
  fixes vm :: "'a::len word vm"
  assumes f: "files w name = Some content"
    and nz: "(of_nat (length content) :: 'a word) \<noteq> 0"
    and d: "defer_memory_map vm \<and> map_deferred_ret vm addr (of_nat (length content)) \<noteq> 0"
  shows "fst (load_image vm name addr w) = Some (- 1, None)"
    and "emitted w (snd (load_image vm name addr w)) =
      [Open name (int (next_fd w)), Lseek (int (next_fd w)) SEEK_END,
       Lseek (int (next_fd w)) SEEK_SET,
       MarkAllocated addr (ROUND_UP (of_nat (length content)) (of_nat PAGE_SIZE_4K)),
       MapDeferred addr (of_nat (length content)), Log DeferredMappingFailed]"
    and "open_fds (snd (load_image vm name addr w)) = (int (next_fd w), content, 0) # open_fds w"
  using nz d
  by (simp_all add: load_image_unfold [OF f] Let_def emitted_def ZF_LOGE_fields emit_fields
        trace_measured)












lemma guest_write_address_ignores_mark_allocated:
  "guest_write_address (vm\<lparr>mark_allocated_ret := r\<rparr>) paddr vaddr sz offset fd w
     = guest_write_address vm paddr vaddr sz offset fd w"
  by (simp add: guest_write_address_def vspace_get_cap_def seL4_ARM_Page_CleanInvalidate_Data_def
        Let_def case_prod_beta)

lemma touch_pages_ignores_mark_allocated:
  "touch_pages (vm\<lparr>mark_allocated_ret := r\<rparr>) addr guest_write_address fd cs w
     = touch_pages vm addr guest_write_address fd cs w"
proof (induction cs arbitrary: w)
  case Nil
  show ?case by simp
next
  case (Cons c cs)
  obtain cur n where c: "c = (cur, n)" by (cases c)
  show ?case
    unfolding c
    by (simp add: guest_write_address_ignores_mark_allocated Cons.IH Let_def
          split: prod.split option.split)
qed

lemma load_image_ignores_mark_allocated:
  "load_image (vm\<lparr>mark_allocated_ret := r\<rparr>) name addr w = load_image vm name addr w"
  by (simp add: load_image_def vm_ram_touch_def touch_pages_ignores_mark_allocated
        vm_ram_mark_allocated_def maybe_map_deferred_pages_at_def Let_def case_prod_beta
      cong: option.case_cong if_cong)

text \<open>
  C6 (as amended). For every load of a non-empty artifact (of a length that fits
  \<open>size_t\<close>), the request to mark \<open>[load_addr, load_addr + ROUND_UP(length, 4096))\<close>
  allocated is issued right after the artifact has been opened and measured, before any
  byte is read or written; the value the request returns is not examined: the load runs
  the same way whatever \<open>vm_ram_mark_allocated\<close> returns.
\<close>

theorem load_image_marks_allocated_first:
  fixes vm :: "'a::len word vm"
  assumes f: "files w name = Some content"
    and ne: "content \<noteq> []"
    and lt: "length content < 2 ^ LENGTH('a)"
  shows "(\<exists>rest. emitted w (snd (load_image vm name addr w)) =
            [Open name (int (next_fd w)), Lseek (int (next_fd w)) SEEK_END,
             Lseek (int (next_fd w)) SEEK_SET,
             MarkAllocated addr (ROUND_UP (of_nat (length content)) (of_nat PAGE_SIZE_4K))]
            @ rest) \<and>
         (\<forall>r. load_image (vm\<lparr>mark_allocated_ret := r\<rparr>) name addr w
                = load_image vm name addr w)"
proof -
  let ?fs = "of_nat (length content) :: 'a word"
  have nz: "?fs \<noteq> 0" by (rule of_nat_length_neq_0 [OF ne lt])
  have "\<exists>rest. emitted w (snd (load_image vm name addr w)) =
            [Open name (int (next_fd w)), Lseek (int (next_fd w)) SEEK_END,
             Lseek (int (next_fd w)) SEEK_SET,
             MarkAllocated addr (ROUND_UP ?fs (of_nat PAGE_SIZE_4K))] @ rest"
  proof (cases "defer_memory_map vm \<and> map_deferred_ret vm addr ?fs \<noteq> 0")
    case True
    show ?thesis
      by (simp add: load_image_deferred_failure(2) [OF f nz True])
  next
    case False
    from load_image_stream [OF f nz False] show ?thesis
      by (elim exE disjE conjE) simp_all
  qed
  then show ?thesis by (simp add: load_image_ignores_mark_allocated)
qed

theorem load_image_marks_allocated_first_witness:
  "files (initial_world [(''linux'', replicate 100 0)] :: 64 word world) ''linux''
      = Some (replicate 100 0) \<and>
   replicate 100 (0 :: byte) \<noteq> [] \<and> length (replicate 100 (0 :: byte)) < 2 ^ LENGTH(64) \<and>
   emitted (initial_world [(''linux'', replicate 100 0)] :: 64 word world)
      (snd (load_image (plain_vm 0x40000000) ''linux'' 0x40000000
          (initial_world [(''linux'', replicate 100 0)]))) =
     [Open ''linux'' 3, Lseek 3 SEEK_END, Lseek 3 SEEK_SET, MarkAllocated 0x40000000 4096,
      Touch 0x40000000 0x40000000 100 0, Read 3 100 100, GetCap 0x40000000,
      CleanInvalidate 1, Close 3] \<and>
   load_image (failing_alloc_vm 0x40000000) ''linux'' 0x40000000
      (initial_world [(''linux'', replicate 100 0)] :: 64 word world)
     = load_image (plain_vm 0x40000000) ''linux'' 0x40000000
         (initial_world [(''linux'', replicate 100 0)])"
  using load_image_marks_allocated_first [of
          "initial_world [(''linux'', replicate 100 0)] :: 64 word world"
          "''linux''" "replicate 100 0" "plain_vm 0x40000000" "0x40000000"]
  by (simp add: run_defs)

text \<open>
  A failing allocation request does not fail the load: here the request returns \<open>-1\<close>,
  and the load goes on to write the page and succeeds.
\<close>

theorem load_image_allocation_failure_not_fatal:
  "mark_allocated_ret (failing_alloc_vm 0x40000000 :: 64 word vm) 0x40000000 4096 = - 1 \<and>
   fst (load_image (failing_alloc_vm 0x40000000) ''linux'' 0x40000000
          (initial_world [(''linux'', replicate 100 0)] :: 64 word world)) = Some (0, Some 100) \<and>
   emitted (initial_world [(''linux'', replicate 100 0)] :: 64 word world)
      (snd (load_image (failing_alloc_vm 0x40000000) ''linux'' 0x40000000
          (initial_world [(''linux'', replicate 100 0)]))) =
     [Open ''linux'' 3, Lseek 3 SEEK_END, Lseek 3 SEEK_SET, MarkAllocated 0x40000000 4096,
      Touch 0x40000000 0x40000000 100 0, Read 3 100 100, GetCap 0x40000000,
      CleanInvalidate 1, Close 3]"
  by (simp add: run_defs)

section \<open>Classification of a named artifact\<close>

lemma delivered_cong:
  "short_read w' = short_read w \<Longrightarrow> nreads w' = nreads w \<Longrightarrow>
   delivered w' content pos n = delivered w content pos n"
  by (simp add: delivered_def)

lemma length_delivered_le_content: "length (delivered w content 0 n) \<le> length content"
  by (auto simp: delivered_def split: option.split)

lemma get_guest_image_type_unfold:
  fixes w :: "'a::len word world"
  assumes f: "files w name = Some content"
  shows "get_guest_image_type name header w =
    (let fd = int (next_fd w);
         d = delivered w content 0 sizeof_Elf64_Ehdr;
         header' = d @ drop (length d) header;
         w2 = w\<lparr>open_fds := (fd, content, length d) # open_fds w,
                nreads := Suc (nreads w),
                trace := trace w @ [Open name fd, Read fd sizeof_Elf64_Ehdr (int (length d))]\<rparr>
     in if (of_nat (length d) :: 'a word) \<noteq> of_nat sizeof_Elf64_Ehdr
        then ((- 1, None, header'), sys_close fd (ZF_LOGE ArtifactUnreadable w2))
        else ((0, Some (image_get_type header'), header'), sys_close fd w2))"
proof -
  let ?fd = "int (next_fd w)"
  let ?w1 = "w\<lparr>open_fds := (?fd, content, 0) # open_fds w,
        trace := trace w @ [Open name ?fd]\<rparr>"
  have o: "sys_open name w = (?fd, ?w1)" by (rule sys_open_Some [OF f])
  have m1: "map_of (open_fds ?w1) ?fd = Some (content, 0)" by simp
  have dl: "delivered ?w1 content 0 n = delivered w content 0 n" for n
    by (rule delivered_cong) simp_all
  have ne: "?fd \<noteq> - 1" by simp
  show ?thesis
    unfolding get_guest_image_type_def o
    by (simp only: split_conv Let_def ne if_False sys_read_open [OF m1] dl of_int_of_nat_eq)
       (simp add: sys_close_eq ZF_LOGE_def emit_def)
qed

lemma delivered_prefix: "delivered w content 0 n = take (length (delivered w content 0 n)) content"
  by (auto simp: delivered_def min_def split: option.split)

lemma of_nat_neq_of_nat:
  assumes "m < n" "n < 2 ^ LENGTH('a::len)"
  shows "(of_nat m :: 'a word) \<noteq> of_nat n"
proof
  assume "(of_nat m :: 'a word) = of_nat n"
  then have "unat (of_nat m :: 'a word) = unat (of_nat n :: 'a word)" by simp
  with assms show False by (simp add: unat_of_nat)
qed

text \<open>
  C7 (as amended). For every artifact shorter than the 64-byte header window, the read
  fills a prefix of the caller's zeroed header buffer and the rest stays zero, so nothing is
  read out of range; but the artifact is not classified: \<open>get_guest_image_type\<close> logs
  that the file could not be read, closes the descriptor and returns \<open>-1\<close> without
  storing an image type, and both public entry points return \<open>-1\<close> and leave the
  output descriptor as it was.
\<close>

theorem get_guest_image_type_short_artifact:
  fixes w :: "'a::len word world"
  assumes f: "files w name = Some content"
    and short: "length content < sizeof_Elf64_Ehdr"
    and wl: "sizeof_Elf64_Ehdr < 2 ^ LENGTH('a)"
  shows "\<exists>d. d = take (length d) content \<and>
     fst (get_guest_image_type name (replicate sizeof_Elf64_Ehdr 0) w)
       = (- 1, None, d @ replicate (sizeof_Elf64_Ehdr - length d) 0) \<and>
     emitted w (snd (get_guest_image_type name (replicate sizeof_Elf64_Ehdr 0) w))
       = [Open name (int (next_fd w)),
          Read (int (next_fd w)) sizeof_Elf64_Ehdr (int (length d)),
          Log ArtifactUnreadable, Close (int (next_fd w))] \<and>
     vm_load_guest_kernel vm name base alignment (Some kimg) w
       = (Some (- 1, Some kimg), snd (get_guest_image_type name (replicate sizeof_Elf64_Ehdr 0) w)) \<and>
     vm_load_guest_module vm name base alignment (Some img) w
       = (Some (- 1, Some img), snd (get_guest_image_type name (replicate sizeof_Elf64_Ehdr 0) w))"
proof -
  define d where "d = delivered w content 0 sizeof_Elf64_Ehdr"
  have le: "length d \<le> length content" unfolding d_def by (rule length_delivered_le_content)
  with short have lt: "length d < sizeof_Elf64_Ehdr" by simp
  have ne: "(of_nat (length d) :: 'a word) \<noteq> of_nat sizeof_Elf64_Ehdr"
    by (rule of_nat_neq_of_nat [OF lt wl])
  have pre: "d = take (length d) content" unfolding d_def by (rule delivered_prefix)
  let ?G = "get_guest_image_type name (replicate sizeof_Elf64_Ehdr 0) w"
  have G1: "fst ?G = (- 1, None, d @ replicate (sizeof_Elf64_Ehdr - length d) 0)"
    using ne by (simp add: get_guest_image_type_unfold [OF f] Let_def d_def [symmetric])
  have G2: "emitted w (snd ?G) = [Open name (int (next_fd w)),
          Read (int (next_fd w)) sizeof_Elf64_Ehdr (int (length d)),
          Log ArtifactUnreadable, Close (int (next_fd w))]"
    using ne by (simp add: get_guest_image_type_unfold [OF f] Let_def d_def [symmetric]
          emitted_def sys_close_eq ZF_LOGE_fields)
  obtain w1 where G: "?G = ((- 1, None, d @ replicate (sizeof_Elf64_Ehdr - length d) 0), w1)"
    using G1 by (cases ?G) simp
  have K: "vm_load_guest_kernel vm name base alignment (Some kimg) w = (Some (- 1, Some kimg), snd ?G)"
    by (simp add: vm_load_guest_kernel_def load_guest_kernel_image_def G)
  have M: "vm_load_guest_module vm name base alignment (Some img) w = (Some (- 1, Some img), snd ?G)"
    by (simp add: vm_load_guest_module_def load_guest_module_image_def G)
  from pre G1 G2 K M show ?thesis by blast
qed

theorem get_guest_image_type_short_artifact_witness:
  "files (initial_world [(''tiny'', replicate 10 0)] :: 64 word world) ''tiny''
      = Some (replicate 10 0) \<and>
   length (replicate 10 (0 :: byte)) < sizeof_Elf64_Ehdr \<and>
   sizeof_Elf64_Ehdr < 2 ^ LENGTH(64) \<and>
   fst (get_guest_image_type ''tiny'' (replicate sizeof_Elf64_Ehdr 0)
          (initial_world [(''tiny'', replicate 10 0)] :: 64 word world))
       = (- 1, None, replicate 64 0) \<and>
   emitted (initial_world [(''tiny'', replicate 10 0)] :: 64 word world)
     (snd (get_guest_image_type ''tiny'' (replicate sizeof_Elf64_Ehdr 0)
          (initial_world [(''tiny'', replicate 10 0)])))
       = [Open ''tiny'' 3, Read 3 64 10, Log ArtifactUnreadable, Close 3] \<and>
   fst (vm_load_guest_kernel (plain_vm 0x40000000) ''tiny'' 0x40000000 0 (Some blank_kernel_image)
          (initial_world [(''tiny'', replicate 10 0)] :: 64 word world))
       = Some (- 1, Some blank_kernel_image) \<and>
   fst (vm_load_guest_module (plain_vm 0x40000000) ''tiny'' 0x40000000 0 (Some blank_image)
          (initial_world [(''tiny'', replicate 10 0)] :: 64 word world))
       = Some (- 1, Some blank_image)"
  using get_guest_image_type_short_artifact [of
          "initial_world [(''tiny'', replicate 10 0)] :: 64 word world" "''tiny''"
          "replicate 10 0" "plain_vm 0x40000000" "0x40000000" 0 blank_kernel_image blank_image]
  by (simp add: run_defs replicate_add [symmetric])

lemmas sniff_defs =
  image_get_type_def elf_check_magic_iff is_uImage_bytes is_zImage_def is_dtb_def
  is_initrd_def zimage_hdr_magic_def zimage_hdr_start_def dtb_hdr_magic_def
  initrd_gz_hdr_magic_def le32_def le16_def ZIMAGE_MAGIC_def DTB_MAGIC_def INITRD_GZ_MAGIC_def

text \<open>
  A 10-byte artifact is rejected, although its zero-padded header would classify as
  \<open>IMG_BIN\<close>.
\<close>

theorem short_artifact_not_classified:
  "fst (get_guest_image_type ''tiny'' (replicate sizeof_Elf64_Ehdr 0)
          (initial_world [(''tiny'', replicate 10 0)] :: 64 word world))
       = (- 1, None, replicate 64 0) \<and>
   image_get_type (replicate 64 0) = IMG_BIN \<and>
   fst (vm_load_guest_kernel (plain_vm 0x40000000) ''tiny'' 0x40000000 0 (Some blank_kernel_image)
          (initial_world [(''tiny'', replicate 10 0)] :: 64 word world))
       = Some (- 1, Some blank_kernel_image)"
  by (simp add: run_defs sniff_defs replicate_add [symmetric])

section \<open>Loader facade\<close>

lemma get_guest_image_type_success:
  fixes w :: "'a::len word world"
  assumes c: "fst (get_guest_image_type name header w) = (0, Some F, hdr)"
  shows "F = image_get_type hdr"
    and "\<exists>n. emitted w (snd (get_guest_image_type name header w))
            = [Open name (int (next_fd w)), Read (int (next_fd w)) sizeof_Elf64_Ehdr n,
               Close (int (next_fd w))]"
proof -
  obtain content where f: "files w name = Some content"
  proof (cases "files w name")
    case None
    then have "fst (fst (get_guest_image_type name header w)) = - 1"
      by (simp add: get_guest_image_type_def sys_open_None)
    with c show ?thesis by simp
  next
    case (Some content)
    then show ?thesis by (rule that)
  qed
  let ?d = "delivered w content 0 sizeof_Elf64_Ehdr"
  have eq: "(of_nat (length ?d) :: 'a word) = of_nat sizeof_Elf64_Ehdr"
  proof (rule ccontr)
    assume "(of_nat (length ?d) :: 'a word) \<noteq> of_nat sizeof_Elf64_Ehdr"
    then have "fst (fst (get_guest_image_type name header w)) = - 1"
      by (simp add: get_guest_image_type_unfold [OF f] Let_def)
    with c show False by simp
  qed
  from c eq show "F = image_get_type hdr"
    by (auto simp: get_guest_image_type_unfold [OF f] Let_def)
  from eq show "\<exists>n. emitted w (snd (get_guest_image_type name header w))
            = [Open name (int (next_fd w)), Read (int (next_fd w)) sizeof_Elf64_Ehdr n,
               Close (int (next_fd w))]"
    by (simp add: get_guest_image_type_unfold [OF f] Let_def emitted_def sys_close_eq)
qed

lemma load_guest_kernel_image_classified:
  fixes vm :: "'a::len word vm"
  assumes c: "fst (get_guest_image_type name (replicate sizeof_Elf64_Ehdr 0) w) = (0, Some F, hdr)"
  shows "load_guest_kernel_image vm name base w =
    (case (case F of IMG_BIN \<Rightarrow> Some (entry vm)
                   | IMG_ZIMAGE \<Rightarrow> Some (zImage_get_load_address hdr base)
                   | _ \<Rightarrow> None) of
       None \<Rightarrow> (Some (0, None),
                 ZF_LOGE UnsupportedFormat
                   (snd (get_guest_image_type name (replicate sizeof_Elf64_Ehdr 0) w)))
     | Some load_addr \<Rightarrow>
         (case load_image vm name load_addr
                 (snd (get_guest_image_type name (replicate sizeof_Elf64_Ehdr 0) w)) of
            (None, w2) \<Rightarrow> (None, w2)
          | (Some (err, image_size), w2) \<Rightarrow>
              if err \<noteq> 0 then (Some (0, image_size), w2)
              else (Some (load_addr, image_size), w2)))"
proof -
  obtain w1 where G: "get_guest_image_type name (replicate sizeof_Elf64_Ehdr 0) w
      = ((0, Some F, hdr), w1)"
    using c by (cases "get_guest_image_type name (replicate sizeof_Elf64_Ehdr 0) w") simp
  show ?thesis
    unfolding load_guest_kernel_image_def G
    by (simp cong: option.case_cong)
qed

lemma load_guest_module_image_classified:
  fixes vm :: "'a::len word vm"
  assumes c: "fst (get_guest_image_type name (replicate sizeof_Elf64_Ehdr 0) w) = (0, Some F, hdr)"
  shows "load_guest_module_image vm name base w =
    (case (case F of IMG_DTB \<Rightarrow> Some base
                   | IMG_INITRD_GZ \<Rightarrow> Some base
                   | _ \<Rightarrow> None) of
       None \<Rightarrow> (Some (0, None),
                 ZF_LOGE UnsupportedFormat
                   (snd (get_guest_image_type name (replicate sizeof_Elf64_Ehdr 0) w)))
     | Some load_addr \<Rightarrow>
         (case load_image vm name load_addr
                 (snd (get_guest_image_type name (replicate sizeof_Elf64_Ehdr 0) w)) of
            (None, w2) \<Rightarrow> (None, w2)
          | (Some (err, image_size), w2) \<Rightarrow>
              if err \<noteq> 0 then (Some (0, image_size), w2)
              else (Some (load_addr, image_size), w2)))"
proof -
  obtain w1 where G: "get_guest_image_type name (replicate sizeof_Elf64_Ehdr 0) w
      = ((0, Some F, hdr), w1)"
    using c by (cases "get_guest_image_type name (replicate sizeof_Elf64_Ehdr 0) w") simp
  show ?thesis
    unfolding load_guest_module_image_def G
    by (simp cong: option.case_cong)
qed

lemma vm_load_guest_kernel_via:
  fixes vm :: "'a::len word vm"
  assumes L: "load_guest_kernel_image vm name base w =
      (case load_image vm name X w1 of
         (None, w2) \<Rightarrow> (None, w2)
       | (Some (err, image_size), w2) \<Rightarrow>
           if err \<noteq> 0 then (Some (0, image_size), w2)
           else (Some (X, image_size), w2))"
  shows "snd (vm_load_guest_kernel vm name base alignment (Some kimg) w)
           = snd (load_image vm name X w1)"
    and "fst (vm_load_guest_kernel vm name base alignment (Some kimg) w) = Some (0, out)
           \<Longrightarrow> \<exists>k. out = Some k \<and> load_paddr (kernel_image k) = X"
  by (auto simp: vm_load_guest_kernel_def L split: prod.splits option.splits if_splits)

lemma vm_load_guest_module_via:
  fixes vm :: "'a::len word vm"
  assumes L: "load_guest_module_image vm name base w =
      (case load_image vm name X w1 of
         (None, w2) \<Rightarrow> (None, w2)
       | (Some (err, image_size), w2) \<Rightarrow>
           if err \<noteq> 0 then (Some (0, image_size), w2)
           else (Some (X, image_size), w2))"
  shows "snd (vm_load_guest_module vm name base alignment (Some img) w)
           = snd (load_image vm name X w1)"
    and "fst (vm_load_guest_module vm name base alignment (Some img) w) = Some (0, out)
           \<Longrightarrow> \<exists>i. out = Some i \<and> load_paddr i = X"
  by (auto simp: vm_load_guest_module_def L split: prod.splits option.splits if_splits)

text \<open>
  C1. For every artifact whose header classifies as format \<open>F\<close> (classification
  succeeded, with the three file-server calls it makes). On the kernel path: for
  \<open>IMG_BIN\<close> the load is the load at \<open>vm->entry\<close>, for \<open>IMG_ZIMAGE\<close> it is the load
  at the zImage rule's address, and a successful call reports that address; for every other
  \<open>F\<close> the call returns \<open>-1\<close> with the output untouched, having only logged the
  unknown-format error after classification, so nothing was loaded. On the module path: for
  \<open>IMG_DTB\<close> and \<open>IMG_INITRD_GZ\<close> the load is the load at the base address verbatim;
  for every other \<open>F\<close> the call fails in the same way before any loading.
\<close>

theorem facade_load_address_by_format:
  fixes vm :: "'a::len word vm"
  assumes c: "fst (get_guest_image_type name (replicate sizeof_Elf64_Ehdr 0) w) = (0, Some F, hdr)"
  shows
   "F = image_get_type hdr \<and>
    (\<exists>n. emitted w (snd (get_guest_image_type name (replicate sizeof_Elf64_Ehdr 0) w))
            = [Open name (int (next_fd w)), Read (int (next_fd w)) sizeof_Elf64_Ehdr n,
               Close (int (next_fd w))]) \<and>
    (F = IMG_BIN \<longrightarrow>
       snd (vm_load_guest_kernel vm name base alignment (Some kimg) w)
         = snd (load_image vm name (entry vm)
                  (snd (get_guest_image_type name (replicate sizeof_Elf64_Ehdr 0) w))) \<and>
       (\<forall>out. fst (vm_load_guest_kernel vm name base alignment (Some kimg) w) = Some (0, out)
          \<longrightarrow> (\<exists>k. out = Some k \<and> load_paddr (kernel_image k) = entry vm))) \<and>
    (F = IMG_ZIMAGE \<longrightarrow>
       snd (vm_load_guest_kernel vm name base alignment (Some kimg) w)
         = snd (load_image vm name (zImage_get_load_address hdr base)
                  (snd (get_guest_image_type name (replicate sizeof_Elf64_Ehdr 0) w))) \<and>
       (\<forall>out. fst (vm_load_guest_kernel vm name base alignment (Some kimg) w) = Some (0, out)
          \<longrightarrow> (\<exists>k. out = Some k \<and>
                  load_paddr (kernel_image k) = zImage_get_load_address hdr base))) \<and>
    (F \<noteq> IMG_BIN \<and> F \<noteq> IMG_ZIMAGE \<longrightarrow>
       vm_load_guest_kernel vm name base alignment (Some kimg) w
         = (Some (- 1, Some kimg),
            ZF_LOGE UnsupportedFormat
              (snd (get_guest_image_type name (replicate sizeof_Elf64_Ehdr 0) w)))) \<and>
    (F = IMG_DTB \<or> F = IMG_INITRD_GZ \<longrightarrow>
       snd (vm_load_guest_module vm name base alignment (Some img) w)
         = snd (load_image vm name base
                  (snd (get_guest_image_type name (replicate sizeof_Elf64_Ehdr 0) w))) \<and>
       (\<forall>out. fst (vm_load_guest_module vm name base alignment (Some img) w) = Some (0, out)
          \<longrightarrow> (\<exists>i. out = Some i \<and> load_paddr i = base))) \<and>
    (F \<noteq> IMG_DTB \<and> F \<noteq> IMG_INITRD_GZ \<longrightarrow>
       vm_load_guest_module vm name base alignment (Some img) w
         = (Some (- 1, Some img),
            ZF_LOGE UnsupportedFormat
              (snd (get_guest_image_type name (replicate sizeof_Elf64_Ehdr 0) w))))"
proof -
  note K = load_guest_kernel_image_classified [OF c, of vm base]
  note M = load_guest_module_image_classified [OF c, of vm base]
  note S = get_guest_image_type_success [OF c]
  have kb: ?thesis if F: "F = IMG_BIN \<or> F = IMG_ZIMAGE"
  proof -
    have unsup: "vm_load_guest_module vm name base alignment (Some img) w
         = (Some (- 1, Some img),
            ZF_LOGE UnsupportedFormat
              (snd (get_guest_image_type name (replicate sizeof_Elf64_Ehdr 0) w)))"
      using F by (auto simp: vm_load_guest_module_def M)
    from F show ?thesis
    proof
      assume b: "F = IMG_BIN"
      have L: "load_guest_kernel_image vm name base w =
        (case load_image vm name (entry vm)
                (snd (get_guest_image_type name (replicate sizeof_Elf64_Ehdr 0) w)) of
           (None, w2) \<Rightarrow> (None, w2)
         | (Some (err, image_size), w2) \<Rightarrow>
             if err \<noteq> 0 then (Some (0, image_size), w2)
             else (Some (entry vm, image_size), w2))"
        by (simp add: K b)
      from vm_load_guest_kernel_via [OF L, of alignment kimg] S unsup b
      show ?thesis by simp
    next
      assume z: "F = IMG_ZIMAGE"
      have L: "load_guest_kernel_image vm name base w =
        (case load_image vm name (zImage_get_load_address hdr base)
                (snd (get_guest_image_type name (replicate sizeof_Elf64_Ehdr 0) w)) of
           (None, w2) \<Rightarrow> (None, w2)
         | (Some (err, image_size), w2) \<Rightarrow>
             if err \<noteq> 0 then (Some (0, image_size), w2)
             else (Some (zImage_get_load_address hdr base, image_size), w2))"
        by (simp add: K z)
      from vm_load_guest_kernel_via [OF L, of alignment kimg] S unsup z
      show ?thesis by simp
    qed
  qed
  have md: ?thesis if F: "F = IMG_DTB \<or> F = IMG_INITRD_GZ"
  proof -
    have unsup: "vm_load_guest_kernel vm name base alignment (Some kimg) w
         = (Some (- 1, Some kimg),
            ZF_LOGE UnsupportedFormat
              (snd (get_guest_image_type name (replicate sizeof_Elf64_Ehdr 0) w)))"
      using F by (auto simp: vm_load_guest_kernel_def K)
    have L: "load_guest_module_image vm name base w =
        (case load_image vm name base
                (snd (get_guest_image_type name (replicate sizeof_Elf64_Ehdr 0) w)) of
           (None, w2) \<Rightarrow> (None, w2)
         | (Some (err, image_size), w2) \<Rightarrow>
             if err \<noteq> 0 then (Some (0, image_size), w2)
             else (Some (base, image_size), w2))"
      using F by (auto simp: M)
    from vm_load_guest_module_via [OF L, of alignment img] S unsup F
    show ?thesis by auto
  qed
  have other: ?thesis if F: "F = IMG_ELF \<or> F = IMG_UIMAGE"
  proof -
    have "vm_load_guest_kernel vm name base alignment (Some kimg) w
         = (Some (- 1, Some kimg),
            ZF_LOGE UnsupportedFormat
              (snd (get_guest_image_type name (replicate sizeof_Elf64_Ehdr 0) w)))"
      using F by (auto simp: vm_load_guest_kernel_def K)
    moreover have "vm_load_guest_module vm name base alignment (Some img) w
         = (Some (- 1, Some img),
            ZF_LOGE UnsupportedFormat
              (snd (get_guest_image_type name (replicate sizeof_Elf64_Ehdr 0) w)))"
      using F by (auto simp: vm_load_guest_module_def M)
    ultimately show ?thesis using S F by auto
  qed
  show ?thesis using kb md other by (cases F) simp_all
qed

lemmas facade_run_defs = run_defs sniff_defs zImage_get_load_address_def nth_append

theorem facade_load_address_by_format_witness:
  "fst (get_guest_image_type ''linux'' (replicate sizeof_Elf64_Ehdr 0)
         (initial_world [(''linux'', replicate 36 0 @ [0x18, 0x28, 0x6F, 0x01] @ replicate 24 0)]
            :: 64 word world))
     = (0, Some IMG_ZIMAGE, replicate 36 0 @ [0x18, 0x28, 0x6F, 0x01] @ replicate 24 0) \<and>
   fst (vm_load_guest_kernel (plain_vm 0x40000000) ''linux'' 0x80000000 0 (Some blank_kernel_image)
         (initial_world [(''linux'', replicate 36 0 @ [0x18, 0x28, 0x6F, 0x01] @ replicate 24 0)]
            :: 64 word world))
     = Some (0, Some \<lparr>kernel_image = \<lparr>load_paddr = 0x80008000, size_bytes = 64\<rparr>\<rparr>) \<and>
   fst (get_guest_image_type ''raw'' (replicate sizeof_Elf64_Ehdr 0)
         (initial_world [(''raw'', replicate 100 0)] :: 64 word world))
     = (0, Some IMG_BIN, replicate 64 0) \<and>
   fst (vm_load_guest_kernel (plain_vm 0x40000000) ''raw'' 0x80000000 0 (Some blank_kernel_image)
         (initial_world [(''raw'', replicate 100 0)] :: 64 word world))
     = Some (0, Some \<lparr>kernel_image = \<lparr>load_paddr = 0x40000000, size_bytes = 100\<rparr>\<rparr>) \<and>
   vm_load_guest_module (plain_vm 0x40000000) ''raw'' 0x80000000 0 (Some blank_image)
         (initial_world [(''raw'', replicate 100 0)] :: 64 word world)
     = (Some (- 1, Some blank_image),
        ZF_LOGE UnsupportedFormat
          (snd (get_guest_image_type ''raw'' (replicate sizeof_Elf64_Ehdr 0)
                 (initial_world [(''raw'', replicate 100 0)])))) \<and>
   fst (get_guest_image_type ''dtb'' (replicate sizeof_Elf64_Ehdr 0)
         (initial_world [(''dtb'', [0xD0, 0x0D, 0xFE, 0xED] @ replicate 60 0)] :: 64 word world))
     = (0, Some IMG_DTB, [0xD0, 0x0D, 0xFE, 0xED] @ replicate 60 0) \<and>
   fst (vm_load_guest_module (plain_vm 0x40000000) ''dtb'' 0x4F000000 0 (Some blank_image)
         (initial_world [(''dtb'', [0xD0, 0x0D, 0xFE, 0xED] @ replicate 60 0)] :: 64 word world))
     = Some (0, Some \<lparr>load_paddr = 0x4F000000, size_bytes = 64\<rparr>) \<and>
   fst (get_guest_image_type ''elf'' (replicate sizeof_Elf64_Ehdr 0)
         (initial_world [(''elf'', [0x7f, 0x45, 0x4c, 0x46] @ replicate 60 0)] :: 64 word world))
     = (0, Some IMG_ELF, [0x7f, 0x45, 0x4c, 0x46] @ replicate 60 0) \<and>
   emitted (initial_world [(''elf'', [0x7f, 0x45, 0x4c, 0x46] @ replicate 60 0)] :: 64 word world)
     (snd (vm_load_guest_kernel (plain_vm 0x40000000) ''elf'' 0x4F000000 0 (Some blank_kernel_image)
         (initial_world [(''elf'', [0x7f, 0x45, 0x4c, 0x46] @ replicate 60 0)])))
     = [Open ''elf'' 3, Read 3 64 64, Close 3, Log UnsupportedFormat]"
  using
    facade_load_address_by_format [where name = "''linux''" and F = IMG_ZIMAGE
      and w = "initial_world [(''linux'', replicate 36 0 @ [0x18, 0x28, 0x6F, 0x01] @ replicate 24 0)]
            :: 64 word world"
      and hdr = "replicate 36 0 @ [0x18, 0x28, 0x6F, 0x01] @ replicate 24 0"
      and vm = "plain_vm 0x40000000" and base = "0x80000000" and alignment = 0
      and kimg = blank_kernel_image and img = blank_image]
    facade_load_address_by_format [where name = "''raw''" and F = IMG_BIN
      and w = "initial_world [(''raw'', replicate 100 0)] :: 64 word world"
      and hdr = "replicate 64 0"
      and vm = "plain_vm 0x40000000" and base = "0x80000000" and alignment = 0
      and kimg = blank_kernel_image and img = blank_image]
    facade_load_address_by_format [where name = "''dtb''" and F = IMG_DTB
      and w = "initial_world [(''dtb'', [0xD0, 0x0D, 0xFE, 0xED] @ replicate 60 0)] :: 64 word world"
      and hdr = "[0xD0, 0x0D, 0xFE, 0xED] @ replicate 60 0"
      and vm = "plain_vm 0x40000000" and base = "0x4F000000" and alignment = 0
      and kimg = blank_kernel_image and img = blank_image]
    facade_load_address_by_format [where name = "''elf''" and F = IMG_ELF
      and w = "initial_world [(''elf'', [0x7f, 0x45, 0x4c, 0x46] @ replicate 60 0)] :: 64 word world"
      and hdr = "[0x7f, 0x45, 0x4c, 0x46] @ replicate 60 0"
      and vm = "plain_vm 0x40000000" and base = "0x4F000000" and alignment = 0
      and kimg = blank_kernel_image and img = blank_image]
  by (simp add: facade_run_defs)

text \<open>
  C10. Two calls of \<open>vm_load_guest_kernel\<close>, or of \<open>vm_load_guest_module\<close>, that
  differ only in the alignment argument return the same value, leave the same output
  descriptor and have the same effects: the parameter is never read.
\<close>

theorem facade_ignores_alignment:
  "vm_load_guest_kernel vm kernel_name load_address alignment guest_kernel_image w
     = vm_load_guest_kernel vm kernel_name load_address alignment' guest_kernel_image w \<and>
   vm_load_guest_module vm module_name load_address alignment guest_image w
     = vm_load_guest_module vm module_name load_address alignment' guest_image w"
  by (simp add: vm_load_guest_kernel_def vm_load_guest_module_def)

text \<open>
  C8. Every descriptor opened during a load call should be closed before the call returns.
  The source does not do so on two exits of \<open>load_image\<close>: on a zero-length artifact
  descriptor 3 stays open, and when deferred mapping fails during a kernel load, the
  descriptor opened by \<open>load_image\<close> (number 3 again, the sniffer having closed its
  own) stays open after the call has returned \<open>-1\<close>: the trace ends without a
  \<open>Close\<close> for it.
\<close>

theorem load_image_leaks_descriptor:
  "fst (load_image (plain_vm 0x40000000) ''empty'' 0x40000000
         (initial_world [(''empty'', [])] :: 64 word world)) = Some (- 1, None) \<and>
   open_fds (snd (load_image (plain_vm 0x40000000) ''empty'' 0x40000000
         (initial_world [(''empty'', [])] :: 64 word world))) = [(3, [], 0)] \<and>
   fst (vm_load_guest_kernel (failing_defer_vm 0x40000000) ''linux'' 0x4F000000 0
         (Some blank_kernel_image)
         (initial_world [(''linux'', replicate 100 0)] :: 64 word world))
     = Some (- 1, Some blank_kernel_image) \<and>
   open_fds (snd (vm_load_guest_kernel (failing_defer_vm 0x40000000) ''linux'' 0x4F000000 0
         (Some blank_kernel_image)
         (initial_world [(''linux'', replicate 100 0)] :: 64 word world)))
     = [(3, replicate 100 0, 0)] \<and>
   trace (snd (vm_load_guest_kernel (failing_defer_vm 0x40000000) ''linux'' 0x4F000000 0
         (Some blank_kernel_image)
         (initial_world [(''linux'', replicate 100 0)] :: 64 word world)))
     = [Open ''linux'' 3, Read 3 64 64, Close 3, Open ''linux'' 3, Lseek 3 SEEK_END,
        Lseek 3 SEEK_SET, MarkAllocated 0x40000000 4096, MapDeferred 0x40000000 100,
        Log DeferredMappingFailed]"
  by (simp add: facade_run_defs)

lemma vm_load_guest_kernel_result:
  fixes vm :: "'a::len word vm"
  assumes "fst (vm_load_guest_kernel vm name base alignment kimg w) = Some (rc, out)"
  shows "(rc = 0 \<and> (\<exists>k. out = Some k \<and> load_paddr (kernel_image k) \<noteq> 0)) \<or>
         (rc = - 1 \<and> out = kimg)"
  using assms
  by (auto simp: vm_load_guest_kernel_def ZF_LOGE_def
        split: option.splits prod.splits if_splits)

lemma vm_load_guest_module_result:
  fixes vm :: "'a::len word vm"
  assumes "fst (vm_load_guest_module vm name base alignment img w) = Some (rc, out)"
  shows "(rc = 0 \<and> (\<exists>i. out = Some i \<and> load_paddr i \<noteq> 0)) \<or>
         (rc = - 1 \<and> out = img)"
  using assms
  by (auto simp: vm_load_guest_module_def ZF_LOGE_def
        split: option.splits prod.splits if_splits)

text \<open>
  C9. Address 0 is the failure sentinel between the static loaders and the public entry
  points. Every call of \<open>vm_load_guest_kernel\<close> or \<open>vm_load_guest_module\<close> that
  returns either returns \<open>0\<close> with a non-zero \<open>load_paddr\<close> stored, or returns
  \<open>-1\<close> with the output descriptor as it was. In particular, when the header was
  classified and the resolved load address is 0 (a raw binary with \<open>vm->entry = 0\<close>, a
  zImage whose rule gives 0, a module with base 0), the load at address 0 is still carried
  out, and whatever it returns the entry point returns \<open>-1\<close> and writes nothing.
\<close>

theorem facade_zero_address_is_failure:
  fixes vm :: "'a::len word vm"
  shows
   "(\<forall>rc out. fst (vm_load_guest_kernel vm name base alignment kimg w) = Some (rc, out) \<longrightarrow>
        (rc = 0 \<and> (\<exists>k. out = Some k \<and> load_paddr (kernel_image k) \<noteq> 0)) \<or>
        (rc = - 1 \<and> out = kimg)) \<and>
    (\<forall>rc out. fst (vm_load_guest_module vm name base alignment img w) = Some (rc, out) \<longrightarrow>
        (rc = 0 \<and> (\<exists>i. out = Some i \<and> load_paddr i \<noteq> 0)) \<or>
        (rc = - 1 \<and> out = img)) \<and>
    (fst (get_guest_image_type name (replicate sizeof_Elf64_Ehdr 0) w) = (0, Some F, hdr) \<and>
     (F = IMG_BIN \<and> entry vm = 0 \<or>
      F = IMG_ZIMAGE \<and> zImage_get_load_address hdr base = (0 :: 'a word)) \<longrightarrow>
       snd (vm_load_guest_kernel vm name base alignment (Some kd) w)
         = snd (load_image vm name 0
                  (snd (get_guest_image_type name (replicate sizeof_Elf64_Ehdr 0) w))) \<and>
       (\<forall>rc out. fst (vm_load_guest_kernel vm name base alignment (Some kd) w) = Some (rc, out)
          \<longrightarrow> rc = - 1 \<and> out = Some kd)) \<and>
    (fst (get_guest_image_type name (replicate sizeof_Elf64_Ehdr 0) w) = (0, Some F, hdr) \<and>
     (F = IMG_DTB \<or> F = IMG_INITRD_GZ) \<and> base = 0 \<longrightarrow>
       snd (vm_load_guest_module vm name base alignment (Some md) w)
         = snd (load_image vm name 0
                  (snd (get_guest_image_type name (replicate sizeof_Elf64_Ehdr 0) w))) \<and>
       (\<forall>rc out. fst (vm_load_guest_module vm name base alignment (Some md) w) = Some (rc, out)
          \<longrightarrow> rc = - 1 \<and> out = Some md))"
proof -
  let ?G1 = "snd (get_guest_image_type name (replicate sizeof_Elf64_Ehdr 0) w)"
  have kz: "snd (vm_load_guest_kernel vm name base alignment (Some kd) w)
         = snd (load_image vm name 0 ?G1) \<and>
       (\<forall>rc out. fst (vm_load_guest_kernel vm name base alignment (Some kd) w) = Some (rc, out)
          \<longrightarrow> rc = - 1 \<and> out = Some kd)"
    if c: "fst (get_guest_image_type name (replicate sizeof_Elf64_Ehdr 0) w) = (0, Some F, hdr)"
      and z: "F = IMG_BIN \<and> entry vm = 0 \<or>
              F = IMG_ZIMAGE \<and> zImage_get_load_address hdr base = (0 :: 'a word)"
  proof -
    have L: "load_guest_kernel_image vm name base w =
        (case load_image vm name 0 ?G1 of
           (None, w2) \<Rightarrow> (None, w2)
         | (Some (err, image_size), w2) \<Rightarrow>
             if err \<noteq> 0 then (Some (0, image_size), w2)
             else (Some (0, image_size), w2))"
      using z by (auto simp: load_guest_kernel_image_classified [OF c])
    note via = vm_load_guest_kernel_via [OF L, of alignment kd]
    note res = vm_load_guest_kernel_result [of vm name base alignment "Some kd" w]
    show ?thesis using via res by fastforce
  qed
  have mz: "snd (vm_load_guest_module vm name base alignment (Some md) w)
         = snd (load_image vm name 0 ?G1) \<and>
       (\<forall>rc out. fst (vm_load_guest_module vm name base alignment (Some md) w) = Some (rc, out)
          \<longrightarrow> rc = - 1 \<and> out = Some md)"
    if c: "fst (get_guest_image_type name (replicate sizeof_Elf64_Ehdr 0) w) = (0, Some F, hdr)"
      and z: "(F = IMG_DTB \<or> F = IMG_INITRD_GZ) \<and> base = 0"
  proof -
    have L: "load_guest_module_image vm name base w =
        (case load_image vm name 0 ?G1 of
           (None, w2) \<Rightarrow> (None, w2)
         | (Some (err, image_size), w2) \<Rightarrow>
             if err \<noteq> 0 then (Some (0, image_size), w2)
             else (Some (0, image_size), w2))"
      using z by (auto simp: load_guest_module_image_classified [OF c])
    note via = vm_load_guest_module_via [OF L, of alignment md]
    note res = vm_load_guest_module_result [of vm name base alignment "Some md" w]
    show ?thesis using via res by fastforce
  qed
  show ?thesis
    using kz mz vm_load_guest_kernel_result [of vm name base alignment kimg w]
      vm_load_guest_module_result [of vm name base alignment img w]
    by blast
qed

theorem facade_zero_address_is_failure_witness:
  "fst (get_guest_image_type ''raw'' (replicate sizeof_Elf64_Ehdr 0)
         (initial_world [(''raw'', replicate 100 0)] :: 64 word world))
     = (0, Some IMG_BIN, replicate 64 0) \<and>
   entry (plain_vm 0 :: 64 word vm) = 0 \<and>
   fst (load_image (plain_vm 0) ''raw'' 0
          (snd (get_guest_image_type ''raw'' (replicate sizeof_Elf64_Ehdr 0)
                 (initial_world [(''raw'', replicate 100 0)] :: 64 word world))))
     = Some (0, Some 100) \<and>
   fst (vm_load_guest_kernel (plain_vm 0) ''raw'' 0x4F000000 0 (Some blank_kernel_image)
          (initial_world [(''raw'', replicate 100 0)] :: 64 word world))
     = Some (- 1, Some blank_kernel_image)"
proof -
  let ?w = "initial_world [(''raw'', replicate 100 0)] :: 64 word world"
  let ?K = "vm_load_guest_kernel (plain_vm 0) ''raw'' 0x4F000000 0 (Some blank_kernel_image) ?w"
  have h1: "fst (get_guest_image_type ''raw'' (replicate sizeof_Elf64_Ehdr 0) ?w)
     = (0, Some IMG_BIN, replicate 64 0)"
    by (simp add: facade_run_defs)
  have h2: "entry (plain_vm 0 :: 64 word vm) = 0"
    by (simp add: plain_vm_def)
  have h3: "fst (load_image (plain_vm 0) ''raw'' 0
          (snd (get_guest_image_type ''raw'' (replicate sizeof_Elf64_Ehdr 0) ?w)))
     = Some (0, Some 100)"
    by (simp add: facade_run_defs)
  have ret: "\<exists>rc out. fst ?K = Some (rc, out)"
    by (simp add: facade_run_defs)
  from facade_zero_address_is_failure [where name = "''raw''" and F = IMG_BIN
      and w = ?w and hdr = "replicate 64 0" and vm = "plain_vm 0" and base = "0x4F000000"
      and alignment = 0 and kimg = "Some blank_kernel_image" and img = "Some blank_image"
      and kd = blank_kernel_image and md = blank_image] h1 h2
  have "\<forall>rc out. fst ?K = Some (rc, out) \<longrightarrow> rc = - 1 \<and> out = Some blank_kernel_image"
    by blast
  with ret have "fst ?K = Some (- 1, Some blank_kernel_image)" by blast
  with h1 h2 h3 show ?thesis by blast
qed

section \<open>Further facts\<close>

text \<open>
  Classification of one header per signature, and of two headers that carry two signatures
  at once: the ELF magic wins over the zImage magic, and the zImage magic over gzip.
\<close>

lemma image_get_type_fixtures:
  "image_get_type ([0x7f, 0x45, 0x4c, 0x46] @ replicate 60 0) = IMG_ELF"
  "image_get_type (replicate 36 0 @ [0x18, 0x28, 0x6F, 0x01] @ replicate 24 0) = IMG_ZIMAGE"
  "image_get_type ([0x27, 0x05, 0x19, 0x56] @ replicate 60 0) = IMG_UIMAGE"
  "image_get_type ([0xD0, 0x0D, 0xFE, 0xED] @ replicate 60 0) = IMG_DTB"
  "image_get_type ([0x1f, 0x8b, 0x08, 0x00] @ replicate 60 0) = IMG_INITRD_GZ"
  "image_get_type (replicate 64 0) = IMG_BIN"
  "image_get_type ([0x7f, 0x45, 0x4c, 0x46] @ replicate 32 0 @ [0x18, 0x28, 0x6F, 0x01]
       @ replicate 24 0) = IMG_ELF"
  "image_get_type ([0x1f, 0x8b, 0x08, 0x00] @ replicate 32 0 @ [0x18, 0x28, 0x6F, 0x01]
       @ replicate 24 0) = IMG_ZIMAGE"
  by (simp_all add: sniff_defs nth_append)

text \<open>
  The entry points read the local \<open>kernel_len\<close> / \<open>module_len\<close> only when the load
  address is non-zero, and then \<open>load_image\<close> has stored it.
\<close>

lemma load_image_size_stored:
  "fst (load_image vm name addr w) = Some (0, sz) \<Longrightarrow> sz \<noteq> None"
  by (auto simp: load_image_def Let_def split: prod.splits option.splits if_splits)

lemma load_guest_kernel_image_size_stored:
  assumes "fst (load_guest_kernel_image vm name base w) = Some (load_addr, kernel_len)"
    and "load_addr \<noteq> 0"
  shows "kernel_len \<noteq> None"
proof -
  have "\<exists>X w1. fst (load_image vm name X w1) = Some (0, kernel_len)"
    using assms
    by (auto simp: load_guest_kernel_image_def Let_def
          split: prod.splits option.splits if_splits img_type.splits)
       (metis fst_conv)+
  then show ?thesis using load_image_size_stored by blast
qed

lemma load_guest_module_image_size_stored:
  assumes "fst (load_guest_module_image vm name base w) = Some (load_addr, module_len)"
    and "load_addr \<noteq> 0"
  shows "module_len \<noteq> None"
proof -
  have "\<exists>X w1. fst (load_image vm name X w1) = Some (0, module_len)"
    using assms
    by (auto simp: load_guest_module_image_def Let_def
          split: prod.splits option.splits if_splits img_type.splits)
       (metis fst_conv)+
  then show ?thesis using load_image_size_stored by blast
qed

text \<open>
  The exits that do close the descriptor. Reading leaves every other descriptor as it was,
  so on each return of \<open>load_image\<close> after the page-wise write (success or failure of
  the write), and on each return of \<open>get_guest_image_type\<close>, the table of open
  descriptors is the one the call started with.
\<close>

lemma sys_read_keeps_others:
  "AList.delete fd (open_fds (snd (sys_read fd n w))) = AList.delete fd (open_fds w)"
  by (simp add: sys_read_def emit_def Let_def delete_update_same split: option.split prod.split)

lemma guest_write_address_open_fds:
  "open_fds (snd (guest_write_address vm paddr vaddr sz offset fd w))
     = open_fds (snd (sys_read fd (unat sz) w))"
  by (simp add: guest_write_address_def Let_def case_prod_beta vspace_get_cap_def
        seL4_ARM_Page_CleanInvalidate_Data_def ZF_LOGE_fields emit_fields)

lemma touch_pages_keeps_others:
  "AList.delete fd (open_fds (snd (touch_pages vm addr guest_write_address fd cs w)))
     = AList.delete fd (open_fds w)"
proof (induction cs arbitrary: w)
  case Nil
  show ?case by simp
next
  case (Cons c cs)
  obtain cur n where c: "c = (cur, n)" by (cases c)
  define w1 where "w1 = emit (Touch (of_nat cur) (touch_vaddr vm (of_nat cur)) (of_nat n)
      (of_nat cur - addr)) w"
  define G where "G = guest_write_address vm (of_nat cur) (touch_vaddr vm (of_nat cur))
      (of_nat n) (of_nat cur - addr) fd w1"
  have g: "AList.delete fd (open_fds (snd G)) = AList.delete fd (open_fds w)"
    by (simp add: G_def guest_write_address_open_fds sys_read_keeps_others w1_def emit_fields)
  have "touch_pages vm addr guest_write_address fd (c # cs) w = G \<or>
        touch_pages vm addr guest_write_address fd (c # cs) w
          = touch_pages vm addr guest_write_address fd cs (snd G)"
    by (cases G) (auto simp: c G_def w1_def Let_def split: option.splits)
  then show ?case using g Cons.IH [of "snd G"] by auto
qed

lemma load_image_closes_descriptor:
  fixes vm :: "'a::len word vm"
  assumes f: "files w name = Some content"
    and nz: "(of_nat (length content) :: 'a word) \<noteq> 0"
    and d: "\<not> (defer_memory_map vm \<and> map_deferred_ret vm addr (of_nat (length content)) \<noteq> 0)"
    and ret: "fst (load_image vm name addr w) \<noteq> None"
  shows "open_fds (snd (load_image vm name addr w)) = open_fds w"
proof -
  let ?fd = "int (next_fd w)"
  let ?fs = "of_nat (length content) :: 'a word"
  have fresh: "?fd \<notin> fst ` set (open_fds w)" by (rule next_fd_fresh)
  define w5 where "w5 =
    (if defer_memory_map vm
     then emit (MapDeferred addr ?fs)
            (emit (MarkAllocated addr (ROUND_UP ?fs (of_nat PAGE_SIZE_4K))) (measured name content w))
     else emit (MarkAllocated addr (ROUND_UP ?fs (of_nat PAGE_SIZE_4K))) (measured name content w))"
  define T where "T = vm_ram_touch vm addr ?fs guest_write_address ?fd w5"
  have R: "load_image vm name addr w = (case T of (None, w6) \<Rightarrow> (None, w6)
                 | (Some error, w6) \<Rightarrow>
                     if error \<noteq> 0
                     then (Some (- 1, None), sys_close ?fd (ZF_LOGE LoadFailed w6))
                     else (Some (0, Some ?fs), sys_close ?fd w6))"
    using nz d unfolding load_image_unfold [OF f] T_def w5_def
    by (auto simp: Let_def)
  have o5: "open_fds w5 = (?fd, content, 0) # open_fds w"
    by (simp add: w5_def emit_fields trace_measured)
  have "AList.delete ?fd (open_fds (snd T)) = AList.delete ?fd (open_fds w5)"
    unfolding T_def vm_ram_touch_def by (rule touch_pages_keeps_others)
  also have "\<dots> = open_fds w" using fresh by (simp add: o5)
  finally have del: "AList.delete ?fd (open_fds (snd T)) = open_fds w" .
  obtain r w6 where T: "T = (r, w6)" by (cases T)
  from ret R T obtain e where r: "r = Some e" by (cases r) auto
  show ?thesis
    using del by (simp add: R T r sys_close_eq ZF_LOGE_fields)
qed

lemma get_guest_image_type_closes_descriptor:
  fixes w :: "'a::len word world"
  shows "open_fds (snd (get_guest_image_type name header w)) = open_fds w"
proof (cases "files w name")
  case None
  then show ?thesis
    by (simp add: get_guest_image_type_def sys_open_None ZF_LOGE_fields)
next
  case (Some content)
  show ?thesis
    using next_fd_fresh [of w]
    by (simp add: get_guest_image_type_unfold [OF Some] Let_def sys_close_eq ZF_LOGE_fields)
qed

text \<open>
  A three-byte artifact loaded two bytes below a page boundary: two callbacks, one per page,
  in ascending order, and the bytes lie in guest memory at the load address.
\<close>

lemma load_image_writes_guest_ram:
  "fst (load_image (plain_vm 0x40000000) ''blob'' 0x40000FFE
         (initial_world [(''blob'', [1, 2, 3])] :: 64 word world)) = Some (0, Some 3)"
  "emitted (initial_world [(''blob'', [1, 2, 3])] :: 64 word world)
     (snd (load_image (plain_vm 0x40000000) ''blob'' 0x40000FFE
         (initial_world [(''blob'', [1, 2, 3])]))) =
     [Open ''blob'' 3, Lseek 3 SEEK_END, Lseek 3 SEEK_SET, MarkAllocated 0x40000FFE 4096,
      Touch 0x40000FFE 0x40000FFE 2 0, Read 3 2 2, GetCap 0x40000FFE, CleanInvalidate 1,
      Touch 0x40001000 0x40001000 1 2, Read 3 1 1, GetCap 0x40001000, CleanInvalidate 1,
      Close 3]"
  "map (guest_ram (snd (load_image (plain_vm 0x40000000) ''blob'' 0x40000FFE
         (initial_world [(''blob'', [1, 2, 3])] :: 64 word world))))
       [0x40000FFD, 0x40000FFE, 0x40000FFF, 0x40001000, 0x40001001] = [0, 1, 2, 3, 0]"
  by (simp_all add: run_defs store_bytes_def unsigned_minus_1_eq_mask mask_eq_exp_minus_1)

end
